theory Spec2Isabelle
  imports Complex_Main "HOL-Library.Char_ord" "HOL-Library.List_Lexorder" "HOL-Library.Product_Lexorder"
    "HOL-Library.Multiset"
begin

section \<open>Data model (models/fipe\_models.py)\<close>

text \<open>
  The dataclasses of \<^verbatim>\<open>models/fipe_models.py\<close>. Field names carry a prefix because the
  Python classes reuse \<^verbatim>\<open>name\<close>, \<^verbatim>\<open>code\<close> and \<^verbatim>\<open>vehicle_type\<close>. A nested object
  (\<^verbatim>\<open>Model.brand\<close>, \<^verbatim>\<open>YearModel.model\<close>, \<^verbatim>\<open>FipeValue.year_model\<close>) is held by value:
  \<^verbatim>\<open>merge\<close> never mutates an entity, and the serialised form (\<^verbatim>\<open>to_dict\<close>) nests the same
  way. The worker, which does mutate, is modelled further down with explicit references.
\<close>

record ReferencePeriod =
  rp_period :: string
  rp_code :: int

record Brand =
  b_name :: string
  b_code :: int
  b_vehicle_type :: string
  b_initial_period :: "string option"

record Model =
  m_name :: string
  m_code :: int
  m_fipe_code :: string
  m_brand :: Brand
  m_vehicle_type :: string

record YearModel =
  ym_description :: string
  ym_year_code :: string
  ym_authentication :: string
  ym_model :: Model

record FipeValue =
  fv_year_model :: YearModel
  fv_average_price :: string
  fv_query_timestamp :: string
  fv_reference_period :: string
  fv_fipe_code :: string
  fv_fuel :: string

record ExtractionResult =
  reference_periods :: "ReferencePeriod list"
  brands :: "Brand list"
  models :: "Model list"
  year_models :: "YearModel list"
  fipe_values :: "FipeValue list"

text \<open>
  Each class overrides \<^verbatim>\<open>__eq__\<close> and \<^verbatim>\<open>__hash__\<close> with the same fields, so membership of an
  object in a Python \<^verbatim>\<open>set\<close> of such objects is membership of its key in the set of keys.
  The key functions below are these field tuples.
\<close>

definition period_key :: "ReferencePeriod \<Rightarrow> string" where
  "period_key p = rp_period p"

definition brand_key :: "Brand \<Rightarrow> string \<times> string" where
  "brand_key b = (b_name b, b_vehicle_type b)"

definition model_key :: "Model \<Rightarrow> string \<times> string" where
  "model_key m = (m_fipe_code m, m_vehicle_type m)"

definition year_model_key :: "YearModel \<Rightarrow> string" where
  "year_model_key y = ym_authentication y"

definition fipe_value_key :: "FipeValue \<Rightarrow> string \<times> string" where
  "fipe_value_key v = (ym_authentication (fv_year_model v), fv_reference_period v)"

definition empty_result :: ExtractionResult where
  "empty_result = \<lparr>reference_periods = [], brands = [], models = [], year_models = [],
     fipe_values = []\<rparr>"

section \<open>ExtractionResult.merge\<close>

text \<open>
  One loop of \<^verbatim>\<open>merge\<close>:
  \<^verbatim>\<open>for x in other.xs: if x not in existing: self.xs.append(x); existing.add(x)\<close>.
  \<open>acc\<close> is \<^verbatim>\<open>self.xs\<close>, \<open>seen\<close> the keys of \<^verbatim>\<open>existing\<close>, the last argument what is left
  of \<^verbatim>\<open>other.xs\<close>.
\<close>

fun merge_loop :: "('a \<Rightarrow> 'k) \<Rightarrow> 'a list \<Rightarrow> 'k set \<Rightarrow> 'a list \<Rightarrow> 'a list" where
  "merge_loop key acc seen [] = acc"
| "merge_loop key acc seen (x # xs) =
     (if key x \<in> seen then merge_loop key acc seen xs
      else merge_loop key (acc @ [x]) (insert (key x) seen) xs)"

definition merge_list :: "('a \<Rightarrow> 'k) \<Rightarrow> 'a list \<Rightarrow> 'a list \<Rightarrow> 'a list" where
  "merge_list key self_xs other_xs = merge_loop key self_xs (set (map key self_xs)) other_xs"

text \<open>\<^verbatim>\<open>self.merge(other)\<close> for two distinct objects: the new state of \<^verbatim>\<open>self\<close>.\<close>

definition merge :: "ExtractionResult \<Rightarrow> ExtractionResult \<Rightarrow> ExtractionResult" where
  "merge self other =
     \<lparr>reference_periods = merge_list period_key (reference_periods self) (reference_periods other),
      brands = merge_list brand_key (brands self) (brands other),
      models = merge_list model_key (models self) (models other),
      year_models = merge_list year_model_key (year_models self) (year_models other),
      fipe_values = merge_list fipe_value_key (fipe_values self) (fipe_values other)\<rparr>"

text \<open>
  \<^verbatim>\<open>r.merge(r)\<close>: \<^verbatim>\<open>other.xs\<close> is the very list the loop appends to. Python's \<^verbatim>\<open>for\<close> over a
  list reads index \<open>i\<close> while \<open>i < len(xs)\<close>, so the loop would also visit what it appends.
  The measure of the termination proof: the entries from \<open>i\<close> on whose key is not yet seen,
  then the distance to the end of the list.
\<close>

function merge_self_loop :: "('a \<Rightarrow> 'k) \<Rightarrow> 'a list \<Rightarrow> 'k set \<Rightarrow> nat \<Rightarrow> 'a list" where
  "merge_self_loop key xs seen i =
     (if i < length xs then
        (if key (xs ! i) \<in> seen then merge_self_loop key xs seen (Suc i)
         else merge_self_loop key (xs @ [xs ! i]) (insert (key (xs ! i)) seen) (Suc i))
      else xs)"
  by pat_completeness auto
termination
proof (relation "measures [\<lambda>(key, xs, seen, i). length (filter (\<lambda>x. key x \<notin> seen) (drop i xs)),
                           \<lambda>(key, xs, seen, i). length xs - i]")
  show "wf (measures [\<lambda>(key :: 'a \<Rightarrow> 'k, xs, seen, i). length (filter (\<lambda>x. key x \<notin> seen) (drop i xs)),
                      \<lambda>(key, xs, seen, i). length xs - i])"
    by simp
next
  fix key :: "'a \<Rightarrow> 'k" and xs :: "'a list" and seen :: "'k set" and i :: nat
  assume lt: "i < length xs" and "key (xs ! i) \<in> seen"
  then have "filter (\<lambda>x. key x \<notin> seen) (drop i xs) = filter (\<lambda>x. key x \<notin> seen) (drop (Suc i) xs)"
    by (simp add: Cons_nth_drop_Suc [symmetric])
  with lt show "((key, xs, seen, Suc i), (key, xs, seen, i))
      \<in> measures [\<lambda>(key, xs, seen, i). length (filter (\<lambda>x. key x \<notin> seen) (drop i xs)),
                   \<lambda>(key, xs, seen, i). length xs - i]"
    by simp
next
  fix key :: "'a \<Rightarrow> 'k" and xs :: "'a list" and seen :: "'k set" and i :: nat
  assume lt: "i < length xs" and new: "key (xs ! i) \<notin> seen"
  let ?s = "insert (key (xs ! i)) seen"
  have "length (filter (\<lambda>x. key x \<notin> ?s) (drop (Suc i) (xs @ [xs ! i])))
      = length (filter (\<lambda>x. key x \<notin> ?s) (drop (Suc i) xs))"
    using lt by simp
  also have "\<dots> \<le> length (filter (\<lambda>x. key x \<notin> seen) (drop (Suc i) xs))"
  proof -
    have "length (filter (\<lambda>x. key x \<notin> ?s) ys) \<le> length (filter (\<lambda>x. key x \<notin> seen) ys)" for ys
      by (induction ys) auto
    then show ?thesis .
  qed
  also have "\<dots> < length (filter (\<lambda>x. key x \<notin> seen) (drop i xs))"
    using lt new by (simp add: Cons_nth_drop_Suc [symmetric])
  finally show "((key, xs @ [xs ! i], ?s, Suc i), (key, xs, seen, i))
      \<in> measures [\<lambda>(key, xs, seen, i). length (filter (\<lambda>x. key x \<notin> seen) (drop i xs)),
                   \<lambda>(key, xs, seen, i). length xs - i]"
    by simp
qed

declare merge_self_loop.simps [simp del]

definition merge_self_list :: "('a \<Rightarrow> 'k) \<Rightarrow> 'a list \<Rightarrow> 'a list" where
  "merge_self_list key xs = merge_self_loop key xs (set (map key xs)) 0"

definition merge_self :: "ExtractionResult \<Rightarrow> ExtractionResult" where
  "merge_self self =
     \<lparr>reference_periods = merge_self_list period_key (reference_periods self),
      brands = merge_self_list brand_key (brands self),
      models = merge_self_list model_key (models self),
      year_models = merge_self_list year_model_key (year_models self),
      fipe_values = merge_self_list fipe_value_key (fipe_values self)\<rparr>"

definition entity_counts :: "ExtractionResult \<Rightarrow> nat \<times> nat \<times> nat \<times> nat \<times> nat" where
  "entity_counts r = (length (reference_periods r), length (brands r), length (models r),
     length (year_models r), length (fipe_values r))"

text \<open>
  Two vocabulary definitions for the statements about \<^verbatim>\<open>merge\<close>: the entries of a list that
  carry a given identity key, and the sets of identity keys a result holds, one per kind.
  \<open>first_seen\<close> is the list a merge loop appends: the first entry of each key not yet seen.
\<close>

definition retained_with :: "('a \<Rightarrow> 'k) \<Rightarrow> 'k \<Rightarrow> 'a list \<Rightarrow> 'a list" where
  "retained_with key k xs = filter (\<lambda>x. key x = k) xs"

definition membership :: "ExtractionResult \<Rightarrow>
    string set \<times> (string \<times> string) set \<times> (string \<times> string) set \<times> string set \<times> (string \<times> string) set" where
  "membership r = (period_key ` set (reference_periods r), brand_key ` set (brands r),
     model_key ` set (models r), year_model_key ` set (year_models r),
     fipe_value_key ` set (fipe_values r))"

fun first_seen :: "('a \<Rightarrow> 'k) \<Rightarrow> 'k set \<Rightarrow> 'a list \<Rightarrow> 'a list" where
  "first_seen key seen [] = []"
| "first_seen key seen (x # xs) =
     (if key x \<in> seen then first_seen key seen xs
      else x # first_seen key (insert (key x) seen) xs)"

text \<open>Two results that hold a model of the same identity with different attributes.\<close>

definition fiat :: Brand where
  "fiat = \<lparr>b_name = ''FIAT'', b_code = 21, b_vehicle_type = ''car'', b_initial_period = None\<rparr>"

definition uno_first :: Model where
  "uno_first = \<lparr>m_name = ''UNO'', m_code = 123, m_fipe_code = ''001004-9'', m_brand = fiat,
     m_vehicle_type = ''car''\<rparr>"

definition uno_second :: Model where
  "uno_second = \<lparr>m_name = ''UNO MILLE'', m_code = 456, m_fipe_code = ''001004-9'', m_brand = fiat,
     m_vehicle_type = ''car''\<rparr>"

definition result_a :: ExtractionResult where
  "result_a = empty_result\<lparr>brands := [fiat], models := [uno_first]\<rparr>"

definition result_b :: ExtractionResult where
  "result_b = empty_result\<lparr>brands := [fiat], models := [uno_second]\<rparr>"

section \<open>The client (api/fipe\_client.py)\<close>

text \<open>
  A parsed JSON value, as \<^verbatim>\<open>response.json()\<close> returns it. An object is the list of the
  items of the Python \<^verbatim>\<open>dict\<close> (its keys are distinct), read with \<open>map_of\<close>.
\<close>

datatype json =
    JNull
  | JBool bool
  | JNum int
  | JStr string
  | JArr "json list"
  | JObj "(string \<times> json) list"

text \<open>
  What one \<^verbatim>\<open>self._session.post(...)\<close> does: it returns a response (status code, \<^verbatim>\<open>text\<close>, and
  the parsed body, \<open>None\<close> where \<^verbatim>\<open>response.json()\<close> raises \<^verbatim>\<open>ValueError\<close>), or it raises
  \<^verbatim>\<open>requests.exceptions.Timeout\<close> or \<^verbatim>\<open>requests.exceptions.ConnectionError\<close>.
\<close>

record response =
  status_code :: nat
  response_text :: string
  body_json :: "json option"

datatype transport =
    Response response
  | RaisesTimeout
  | RaisesConnectionError

text \<open>
  The exceptions. The text of a client error is kept structured, one constructor per
  message the source formats:
  \<^verbatim>\<open>"Rate limit atingido"\<close>, \<^verbatim>\<open>f"Erro de servidor: {status}"\<close>,
  \<^verbatim>\<open>f"Erro HTTP {status}: {text[:200]}"\<close>, \<^verbatim>\<open>f"Resposta invalida: {text[:200]}"\<close>, and the
  \<^verbatim>\<open>"erro"\<close> text of the body, verbatim. \<open>RetryError e\<close> is \<^verbatim>\<open>tenacity.RetryError\<close> holding the
  last attempt, which raised \<open>e\<close>.
\<close>

datatype message =
    RateLimitAtingido
  | ErroDeServidor nat
  | ErroHTTP nat string
  | RespostaInvalida string
  | ApiErro string

datatype exn =
    FipeRateLimitError message
  | FipeRequestError message
  | Timeout
  | ConnectionError
  | RetryError exn
  | AttributeError
  | ValueError
  | TypeError

text \<open>
  \<^verbatim>\<open>str.lower()\<close> on the letters A to Z, and \<^verbatim>\<open>needle in haystack\<close> on strings. Characters are
  bytes here; the two keywords are ASCII.
\<close>

definition lower_char :: "char \<Rightarrow> char" where
  "lower_char c =
     (case map_of (zip ''ABCDEFGHIJKLMNOPQRSTUVWXYZ'' ''abcdefghijklmnopqrstuvwxyz'') c of
        Some l \<Rightarrow> l
      | None \<Rightarrow> c)"

definition lower :: "string \<Rightarrow> string" where
  "lower s = map lower_char s"

fun contains :: "string \<Rightarrow> string \<Rightarrow> bool" where
  "contains needle [] = (needle = [])"
| "contains needle (c # cs) = (take (length needle) (c # cs) = needle \<or> contains needle cs)"

text \<open>
  The body of \<^verbatim>\<open>_make_request\<close> after the pacing wait, for one outcome of the transport:
  the value returned (\<open>Inr\<close>) or the exception raised (\<open>Inl\<close>). The checks stand in the
  source's order: 429, any other status but 200 (500 and above apart), the JSON parse, the
  \<^verbatim>\<open>"erro"\<close> field of a \<^verbatim>\<open>dict\<close>. \<^verbatim>\<open>error_msg.lower()\<close> on a value that is not a string raises
  \<^verbatim>\<open>AttributeError\<close>.
\<close>

definition attempt :: "transport \<Rightarrow> exn + json" where
  "attempt t =
     (case t of
        RaisesTimeout \<Rightarrow> Inl Timeout
      | RaisesConnectionError \<Rightarrow> Inl ConnectionError
      | Response r \<Rightarrow>
          if status_code r = 429 then Inl (FipeRateLimitError RateLimitAtingido)
          else if status_code r \<noteq> 200 then
            (if status_code r \<ge> 500 then Inl (FipeRateLimitError (ErroDeServidor (status_code r)))
             else Inl (FipeRequestError (ErroHTTP (status_code r) (take 200 (response_text r)))))
          else
            (case body_json r of
               None \<Rightarrow> Inl (FipeRequestError (RespostaInvalida (take 200 (response_text r))))
             | Some data \<Rightarrow>
                 (case data of
                    JObj items \<Rightarrow>
                      (case map_of items ''erro'' of
                         None \<Rightarrow> Inr data
                       | Some (JStr error_msg) \<Rightarrow>
                           if contains ''timeout'' (lower error_msg)
                              \<or> contains ''blocked'' (lower error_msg)
                           then Inl (FipeRateLimitError (ApiErro error_msg))
                           else Inl (FipeRequestError (ApiErro error_msg))
                       | Some _ \<Rightarrow> Inl AttributeError)
                  | _ \<Rightarrow> Inr data)))"

text \<open>
  The decorator: \<^verbatim>\<open>retry_if_exception_type((FipeRateLimitError, ConnectionError, Timeout))\<close>.
\<close>

fun retryable :: "exn \<Rightarrow> bool" where
  "retryable (FipeRateLimitError _) = True"
| "retryable Timeout = True"
| "retryable ConnectionError = True"
| "retryable _ = False"

text \<open>
  The loop of tenacity's \<^verbatim>\<open>Retrying\<close> around a function, with \<^verbatim>\<open>stop_after_attempt(stop)\<close>:
  attempt number \<open>n\<close> (from 1) runs \<open>f n\<close>; a value is returned; an exception the retry
  predicate rejects is raised as it is; otherwise, when \<open>n \<ge> stop\<close>, the loop ends with
  the last exception itself if \<^verbatim>\<open>reraise\<close> is set and with \<^verbatim>\<open>RetryError\<close> around it if not;
  otherwise it sleeps and runs attempt \<open>n + 1\<close>. The second component counts the calls of
  \<open>f\<close>. The sleeps between attempts change neither and are left out.
\<close>

function retrying :: "bool \<Rightarrow> int \<Rightarrow> (nat \<Rightarrow> exn + 'a) \<Rightarrow> nat \<Rightarrow> (exn + 'a) \<times> nat" where
  "retrying reraise stop f n =
     (case f n of
        Inr v \<Rightarrow> (Inr v, n)
      | Inl e \<Rightarrow>
          if \<not> retryable e then (Inl e, n)
          else if int n \<ge> stop then (Inl (if reraise then e else RetryError e), n)
          else retrying reraise stop f (Suc n))"
  by pat_completeness auto
termination
  by (relation "measure (\<lambda>(reraise, stop, f, n). nat (stop - int n))") auto

declare retrying.simps [simp del]

text \<open>
  \<^verbatim>\<open>_make_request\<close> as decorated: \<^verbatim>\<open>@retry(stop=stop_after_attempt(Config.MAX_RETRIES), ...)\<close>
  without \<^verbatim>\<open>reraise\<close>, whose default is \<^verbatim>\<open>False\<close>. \<open>post n\<close> is what the \<open>n\<close>-th call of
  \<^verbatim>\<open>self._session.post\<close> does; every attempt makes exactly one, so the count of attempts is
  the count of transport invocations.
\<close>

definition make_request :: "int \<Rightarrow> (nat \<Rightarrow> transport) \<Rightarrow> (exn + json) \<times> nat" where
  "make_request max_retries post = retrying False max_retries (\<lambda>n. attempt (post n)) 1"

text \<open>
  \<^verbatim>\<open>_wait_for_rate_limit\<close>. The clock is the environment's: \<open>t1\<close> and \<open>t2\<close> are what the
  two calls of \<^verbatim>\<open>time.time()\<close> return, as exact reals. The function returns the sleep it asks
  for, if any, and the new \<^verbatim>\<open>_last_request_time\<close>. \<open>clock_ok\<close> says what the environment
  owes: the second reading is not before the first, and not before the end of the sleep.
\<close>

definition wait_for_rate_limit :: "real \<Rightarrow> real \<Rightarrow> real \<Rightarrow> real \<Rightarrow> real option \<times> real" where
  "wait_for_rate_limit delay last_request_time t1 t2 =
     (let elapsed = t1 - last_request_time
      in (if elapsed < delay then Some (delay - elapsed) else None, t2))"

definition clock_ok :: "real \<Rightarrow> real option \<Rightarrow> real \<Rightarrow> bool" where
  "clock_ok t1 slept t2 = (case slept of None \<Rightarrow> t1 \<le> t2 | Some s \<Rightarrow> t1 + s \<le> t2)"

text \<open>Some responses of the transport, for the concrete instances below.\<close>

definition too_many_requests :: response where
  "too_many_requests = \<lparr>status_code = 429, response_text = ''Too Many Requests'', body_json = None\<rparr>"







section \<open>Partial files and consolidation (utils/file\_handler.py)\<close>

text \<open>
  \<^verbatim>\<open>to_dict\<close> nests the dictionaries as the records above nest, and every key is present, so
  the serialised form of an entity is the record itself: \<^verbatim>\<open>d.get("name")\<close> is \<open>b_name d\<close>.
  A partial file holds one JSON object. The orchestrator writes
  \<^verbatim>\<open>{"batch": batch_idx, "data": final_result.to_dict()}\<close> (\<open>Wrapped\<close>); \<open>Flat\<close> is an object
  with the five lists at its top level, as \<^verbatim>\<open>to_dict\<close> alone produces. A file that does not
  parse makes \<^verbatim>\<open>json.load\<close> raise \<^verbatim>\<open>JSONDecodeError\<close> (\<open>NotJson\<close>).
\<close>

datatype partial_json =
    Flat ExtractionResult
  | Wrapped int ExtractionResult

datatype file_content =
    NotJson
  | Json partial_json

text \<open>
  The partial directory: its entries in the order the operating system lists them, which
  is the order \<^verbatim>\<open>Path.glob\<close> yields them in; \<open>None\<close> when the directory does not exist.
  \<^verbatim>\<open>list_partial_files\<close> is \<^verbatim>\<open>list(partial_dir.glob("*.json"))\<close>: it filters and does not sort.
\<close>

type_synonym directory = "(string \<times> file_content) list"

definition is_json_name :: "string \<Rightarrow> bool" where
  "is_json_name name = (drop (length name - 5) name = ''.json'')"

definition list_partial_files :: "directory option \<Rightarrow> (string \<times> file_content) list" where
  "list_partial_files partial_dir =
     (case partial_dir of
        None \<Rightarrow> []
      | Some entries \<Rightarrow> filter (\<lambda>(name, content). is_json_name name) entries)"

text \<open>
  What \<^verbatim>\<open>data.get("reference_periods", [])\<close> and its four siblings read from the object of
  a file: its top-level lists. A wrapped object has none of the five keys at top level.
\<close>

fun top_level :: "partial_json \<Rightarrow> ExtractionResult" where
  "top_level (Flat r) = r"
| "top_level (Wrapped batch r) = empty_result"

text \<open>The keys \<^verbatim>\<open>consolidate_partials\<close> builds, and the guard on their first component.\<close>

definition period_file_key :: "ReferencePeriod \<Rightarrow> string" where
  "period_file_key period = rp_period period"

definition brand_file_key :: "Brand \<Rightarrow> string \<times> string" where
  "brand_file_key brand = (b_name brand, b_vehicle_type brand)"

definition model_file_key :: "Model \<Rightarrow> string \<times> string" where
  "model_file_key model = (m_fipe_code model, m_vehicle_type model)"

definition year_file_key :: "YearModel \<Rightarrow> string \<times> string" where
  "year_file_key year_model = (ym_authentication year_model, m_fipe_code (ym_model year_model))"

definition value_file_key :: "FipeValue \<Rightarrow> string \<times> string" where
  "value_file_key fipe_value =
     (ym_authentication (fv_year_model fipe_value), fv_reference_period fipe_value)"

definition truthy :: "string \<Rightarrow> bool" where
  "truthy s = (s \<noteq> [])"

definition truthy_fst :: "string \<times> string \<Rightarrow> bool" where
  "truthy_fst k = truthy (fst k)"

text \<open>
  One of the five inner loops:
  \<^verbatim>\<open>for x in xs: if key[0] and key not in seen: seen.add(key); consolidated.append(x)\<close>.
\<close>

fun add_entries :: "('a \<Rightarrow> 'k) \<Rightarrow> ('k \<Rightarrow> bool) \<Rightarrow> 'k set \<times> 'a list \<Rightarrow> 'a list \<Rightarrow> 'k set \<times> 'a list" where
  "add_entries key ok (seen, acc) [] = (seen, acc)"
| "add_entries key ok (seen, acc) (x # xs) =
     (if ok (key x) \<and> key x \<notin> seen
      then add_entries key ok (insert (key x) seen, acc @ [x]) xs
      else add_entries key ok (seen, acc) xs)"

record consolidation =
  periods_acc :: "string set \<times> ReferencePeriod list"
  brands_acc :: "(string \<times> string) set \<times> Brand list"
  models_acc :: "(string \<times> string) set \<times> Model list"
  year_models_acc :: "(string \<times> string) set \<times> YearModel list"
  fipe_values_acc :: "(string \<times> string) set \<times> FipeValue list"

definition initial_consolidation :: consolidation where
  "initial_consolidation = \<lparr>periods_acc = ({}, []), brands_acc = ({}, []), models_acc = ({}, []),
     year_models_acc = ({}, []), fipe_values_acc = ({}, [])\<rparr>"

text \<open>The body of the loop over the files; a file that does not parse is skipped.\<close>

definition consolidate_file :: "consolidation \<Rightarrow> file_content \<Rightarrow> consolidation" where
  "consolidate_file st content =
     (case content of
        NotJson \<Rightarrow> st
      | Json data \<Rightarrow>
          \<lparr>periods_acc = add_entries period_file_key truthy (periods_acc st)
             (reference_periods (top_level data)),
           brands_acc = add_entries brand_file_key truthy_fst (brands_acc st)
             (brands (top_level data)),
           models_acc = add_entries model_file_key truthy_fst (models_acc st)
             (models (top_level data)),
           year_models_acc = add_entries year_file_key truthy_fst (year_models_acc st)
             (year_models (top_level data)),
           fipe_values_acc = add_entries value_file_key truthy_fst (fipe_values_acc st)
             (fipe_values (top_level data))\<rparr>)"

text \<open>
  The three sorts. \<^verbatim>\<open>list.sort\<close> is stable, also with \<^verbatim>\<open>reverse=True\<close>; strings compare by
  code point, tuples lexicographically.
\<close>

definition sort_periods :: "ReferencePeriod list \<Rightarrow> ReferencePeriod list" where
  "sort_periods xs = rev (sort_key rp_period (rev xs))"

definition sort_brands :: "Brand list \<Rightarrow> Brand list" where
  "sort_brands xs = sort_key (\<lambda>x. (b_vehicle_type x, b_name x)) xs"

definition sort_models :: "Model list \<Rightarrow> Model list" where
  "sort_models xs = sort_key (\<lambda>x. (m_vehicle_type x, b_name (m_brand x), m_name x)) xs"

text \<open>
  \<^verbatim>\<open>consolidate_partials\<close>: the object written to the final file, or \<open>None\<close> when there is no
  partial file and nothing is written.
\<close>

definition consolidate_files :: "file_content list \<Rightarrow> ExtractionResult" where
  "consolidate_files contents =
     (let st = foldl consolidate_file initial_consolidation contents
      in \<lparr>reference_periods = sort_periods (snd (periods_acc st)),
          brands = sort_brands (snd (brands_acc st)),
          models = sort_models (snd (models_acc st)),
          year_models = snd (year_models_acc st),
          fipe_values = snd (fipe_values_acc st)\<rparr>)"

definition consolidate_partials :: "directory option \<Rightarrow> ExtractionResult option" where
  "consolidate_partials partial_dir =
     (let partial_files = list_partial_files partial_dir
      in if partial_files = [] then None
         else Some (consolidate_files (map snd partial_files)))"






text \<open>
  Vocabulary for the statements about consolidation: the entries the loop reads from one
  file, a file that is not in the wrapped layout, and the fold of \<^verbatim>\<open>merge\<close> over a list of
  results, as \<^verbatim>\<open>Orchestrator.run\<close> applies it to an empty result.
\<close>

fun file_entries :: "file_content \<Rightarrow> ExtractionResult" where
  "file_entries NotJson = empty_result"
| "file_entries (Json data) = top_level data"

fun not_wrapped :: "file_content \<Rightarrow> bool" where
  "not_wrapped (Json (Wrapped batch r)) = False"
| "not_wrapped _ = True"


text \<open>
  The list a consolidation loop builds from all the entries it reads, in reading order:
  the entries whose key passes the guard, first entry of each key only.
\<close>

definition consolidated_entries :: "('a \<Rightarrow> 'k) \<Rightarrow> ('k \<Rightarrow> bool) \<Rightarrow> 'a list \<Rightarrow> 'a list" where
  "consolidated_entries key ok xs = first_seen key {} (filter (\<lambda>x. ok (key x)) xs)"


section \<open>The extractors and the worker (scrapers/)\<close>

text \<open>
  \<^verbatim>\<open>VehicleType.from_string\<close>: the name is lower-cased and stripped, then looked up; an
  unknown name raises \<^verbatim>\<open>ValueError\<close>. The last name is \<^verbatim>\<open>caminhao\<close> written with a tilde, two
  bytes in UTF-8.
\<close>

definition is_space :: "char \<Rightarrow> bool" where
  "is_space c = (c \<in> set [CHR 0x20, CHR 0x09, CHR 0x0A, CHR 0x0B, CHR 0x0C, CHR 0x0D])"

definition strip :: "string \<Rightarrow> string" where
  "strip s = rev (dropWhile is_space (rev (dropWhile is_space s)))"

definition from_string :: "string \<Rightarrow> exn + int" where
  "from_string vehicle_type =
     (case map_of [(''car'', 1), (''carro'', 1), (''bike'', 2), (''moto'', 2), (''truck'', 3),
                   (''caminhao'', 3), (''caminh'' @ [CHR 0xC3, CHR 0xA3] @ ''o'', 3)]
             (strip (lower vehicle_type)) of
        None \<Rightarrow> Inl ValueError
      | Some code \<Rightarrow> Inr code)"

text \<open>
  What the client methods give the extractors. A JSON value the code calls \<^verbatim>\<open>.get\<close> on is
  either an object, seen through the keys the code reads (an absent text key reads as the
  default \<^verbatim>\<open>""\<close>), or something else, on which \<^verbatim>\<open>.get\<close> raises \<^verbatim>\<open>AttributeError\<close>.
  \<open>mi_value\<close> is \<^verbatim>\<open>int(data.get("Value", 0))\<close>, \<open>None\<close> where \<^verbatim>\<open>int\<close> raises \<^verbatim>\<open>ValueError\<close>.
  A client method raises (\<open>Inl\<close>) whatever \<^verbatim>\<open>_make_request\<close> or its own argument handling
  raises. The answers depend on the arguments of the call only.
\<close>

datatype 'a pyobj = Dict 'a | NotDict

record model_item =
  mi_label :: string
  mi_value :: "int option"

record year_item =
  yi_label :: string
  yi_value :: string

record value_response =
  vr_valor :: string
  vr_codigo_fipe :: string
  vr_autenticacao :: string
  vr_combustivel :: string

record client =
  get_models :: "int \<Rightarrow> int \<Rightarrow> int \<Rightarrow> exn + model_item pyobj list pyobj"
  get_year_models :: "int \<Rightarrow> int \<Rightarrow> int \<Rightarrow> int \<Rightarrow> exn + year_item pyobj list"
  get_fipe_value :: "int \<Rightarrow> int \<Rightarrow> int \<Rightarrow> int \<Rightarrow> string \<Rightarrow> exn + value_response pyobj"

text \<open>
  The objects the worker mutates, in a store. A \<^verbatim>\<open>Model\<close> object is a \<open>Model\<close> record at an
  address (its brand is never mutated and is held by value); a \<^verbatim>\<open>YearModel\<close> object holds
  the address of its model; a \<^verbatim>\<open>FipeValue\<close> object holds the address of its year-model.
\<close>

record YearModelObj =
  yo_description :: string
  yo_year_code :: string
  yo_authentication :: string
  yo_model :: nat

record FipeValueObj =
  vo_year_model :: nat
  vo_average_price :: string
  vo_query_timestamp :: string
  vo_reference_period :: string
  vo_fipe_code :: string
  vo_fuel :: string

record heap =
  model_at :: "nat \<Rightarrow> Model"
  model_count :: nat
  year_at :: "nat \<Rightarrow> YearModelObj"
  year_count :: nat

definition empty_heap :: heap where
  "empty_heap = \<lparr>model_at = (\<lambda>a. \<lparr>m_name = [], m_code = 0, m_fipe_code = [],
        m_brand = \<lparr>b_name = [], b_code = 0, b_vehicle_type = [], b_initial_period = None\<rparr>,
        m_vehicle_type = []\<rparr>),
     model_count = 0,
     year_at = (\<lambda>a. \<lparr>yo_description = [], yo_year_code = [], yo_authentication = [], yo_model = 0\<rparr>),
     year_count = 0\<rparr>"

definition new_model :: "Model \<Rightarrow> heap \<Rightarrow> nat \<times> heap" where
  "new_model m h =
     (model_count h, h\<lparr>model_at := (model_at h)(model_count h := m), model_count := Suc (model_count h)\<rparr>)"

definition new_year :: "YearModelObj \<Rightarrow> heap \<Rightarrow> nat \<times> heap" where
  "new_year y h =
     (year_count h, h\<lparr>year_at := (year_at h)(year_count h := y), year_count := Suc (year_count h)\<rparr>)"

text \<open>
  \<^verbatim>\<open>ModelScraper.extract_for_brand\<close>. \<^verbatim>\<open>from_string\<close> stands before the \<^verbatim>\<open>try\<close>, so its
  \<^verbatim>\<open>ValueError\<close> propagates; an exception of the client call is logged and gives \<^verbatim>\<open>[]\<close>; the
  loop over \<^verbatim>\<open>response.get("Modelos", [])\<close> stands after the \<^verbatim>\<open>try\<close>. Every model starts with
  an empty \<^verbatim>\<open>fipe_code\<close>.
\<close>

fun models_from_items :: "Brand \<Rightarrow> model_item pyobj list \<Rightarrow> heap \<Rightarrow> (exn + nat list) \<times> heap" where
  "models_from_items brand [] h = (Inr [], h)"
| "models_from_items brand (NotDict # items) h = (Inl AttributeError, h)"
| "models_from_items brand (Dict item # items) h =
     (case mi_value item of
        None \<Rightarrow> (Inl ValueError, h)
      | Some code \<Rightarrow>
          (let (m, h1) = new_model \<lparr>m_name = mi_label item, m_code = code, m_fipe_code = [],
                 m_brand = brand, m_vehicle_type = b_vehicle_type brand\<rparr> h
           in case models_from_items brand items h1 of
                (Inl e, h2) \<Rightarrow> (Inl e, h2)
              | (Inr ms, h2) \<Rightarrow> (Inr (m # ms), h2)))"

definition extract_for_brand :: "client \<Rightarrow> ReferencePeriod \<Rightarrow> Brand \<Rightarrow> heap \<Rightarrow> (exn + nat list) \<times> heap" where
  "extract_for_brand cl period brand h =
     (case from_string (b_vehicle_type brand) of
        Inl e \<Rightarrow> (Inl e, h)
      | Inr vehicle_type_code \<Rightarrow>
          (case get_models cl (rp_code period) vehicle_type_code (b_code brand) of
             Inl e \<Rightarrow> (Inr [], h)
           | Inr NotDict \<Rightarrow> (Inl AttributeError, h)
           | Inr (Dict raw_models) \<Rightarrow> models_from_items brand raw_models h))"

text \<open>
  \<^verbatim>\<open>ValueScraper.extract_year_models\<close> for the model at address \<open>m\<close>: same shape. Every
  year-model starts with an empty \<^verbatim>\<open>authentication\<close> and refers to the model object itself.
  (The \<^verbatim>\<open>isinstance\<close> tests on \<^verbatim>\<open>model.brand\<close> and \<^verbatim>\<open>year_model.model\<close> always succeed here.)
\<close>

fun years_from_items :: "nat \<Rightarrow> year_item pyobj list \<Rightarrow> heap \<Rightarrow> (exn + nat list) \<times> heap" where
  "years_from_items m [] h = (Inr [], h)"
| "years_from_items m (NotDict # items) h = (Inl AttributeError, h)"
| "years_from_items m (Dict item # items) h =
     (let (y, h1) = new_year \<lparr>yo_description = yi_label item, yo_year_code = yi_value item,
            yo_authentication = [], yo_model = m\<rparr> h
      in case years_from_items m items h1 of
           (Inl e, h2) \<Rightarrow> (Inl e, h2)
         | (Inr ys, h2) \<Rightarrow> (Inr (y # ys), h2))"

definition extract_year_models :: "client \<Rightarrow> ReferencePeriod \<Rightarrow> nat \<Rightarrow> heap \<Rightarrow> (exn + nat list) \<times> heap" where
  "extract_year_models cl period m h =
     (let model = model_at h m; brand = m_brand model
      in case from_string (m_vehicle_type model) of
           Inl e \<Rightarrow> (Inl e, h)
         | Inr vehicle_type_code \<Rightarrow>
             (case get_year_models cl (rp_code period) vehicle_type_code (b_code brand) (m_code model) of
                Inl e \<Rightarrow> (Inr [], h)
              | Inr raw_years \<Rightarrow> years_from_items m raw_years h))"

text \<open>
  \<^verbatim>\<open>ValueScraper.extract_fipe_value\<close> for the year-model at address \<open>y\<close>. An exception of the
  client call is logged and the result is \<^verbatim>\<open>None\<close>. Otherwise the authentication of the
  answer is stored in the year-model, the fipe code of the answer is stored in the model
  when it is not empty and the model has none, and a new value object is returned. \<open>now\<close>
  is what \<^verbatim>\<open>datetime.now().isoformat()\<close> returns.
\<close>

definition extract_fipe_value ::
    "client \<Rightarrow> string \<Rightarrow> ReferencePeriod \<Rightarrow> nat \<Rightarrow> heap \<Rightarrow> (exn + FipeValueObj option) \<times> heap" where
  "extract_fipe_value cl now period y h =
     (let year_model = year_at h y; m = yo_model year_model; model = model_at h m;
          brand = m_brand model
      in case from_string (m_vehicle_type model) of
           Inl e \<Rightarrow> (Inl e, h)
         | Inr vehicle_type_code \<Rightarrow>
             (case get_fipe_value cl (rp_code period) vehicle_type_code (b_code brand)
                     (m_code model) (yo_year_code year_model) of
                Inl e \<Rightarrow> (Inr None, h)
              | Inr NotDict \<Rightarrow> (Inl AttributeError, h)
              | Inr (Dict response) \<Rightarrow>
                  (let h1 = h\<lparr>year_at := (year_at h)
                              (y := year_model\<lparr>yo_authentication := vr_autenticacao response\<rparr>)\<rparr>;
                       h2 = (if vr_codigo_fipe response \<noteq> [] \<and> m_fipe_code model = []
                             then h1\<lparr>model_at := (model_at h1)
                                    (m := model\<lparr>m_fipe_code := vr_codigo_fipe response\<rparr>)\<rparr>
                             else h1)
                   in (Inr (Some \<lparr>vo_year_model = y, vo_average_price = vr_valor response,
                          vo_query_timestamp = now, vo_reference_period = rp_period period,
                          vo_fipe_code = vr_codigo_fipe response,
                          vo_fuel = vr_combustivel response\<rparr>), h2))))"

text \<open>
  The \<^verbatim>\<open>ExtractionResult\<close> the worker fills: lists of references, serialised at the end by
  \<^verbatim>\<open>to_dict\<close>, which reads every object in its final state.
\<close>

record worker_result =
  wr_brands :: "Brand list"
  wr_models :: "nat list"
  wr_year_models :: "nat list"
  wr_fipe_values :: "FipeValueObj list"

definition year_dict :: "heap \<Rightarrow> nat \<Rightarrow> YearModel" where
  "year_dict h y = \<lparr>ym_description = yo_description (year_at h y),
     ym_year_code = yo_year_code (year_at h y),
     ym_authentication = yo_authentication (year_at h y),
     ym_model = model_at h (yo_model (year_at h y))\<rparr>"

definition value_dict :: "heap \<Rightarrow> FipeValueObj \<Rightarrow> FipeValue" where
  "value_dict h v = \<lparr>fv_year_model = year_dict h (vo_year_model v),
     fv_average_price = vo_average_price v, fv_query_timestamp = vo_query_timestamp v,
     fv_reference_period = vo_reference_period v, fv_fipe_code = vo_fipe_code v,
     fv_fuel = vo_fuel v\<rparr>"

definition to_dict :: "heap \<Rightarrow> worker_result \<Rightarrow> ExtractionResult" where
  "to_dict h r = \<lparr>reference_periods = [], brands = wr_brands r,
     models = map (model_at h) (wr_models r),
     year_models = map (year_dict h) (wr_year_models r),
     fipe_values = map (value_dict h) (wr_fipe_values r)\<rparr>"

text \<open>
  The two loops of \<^verbatim>\<open>_extract_worker\<close>. The first component is the exception that left the
  loop, if any; the result and the store are as the exception found them.
\<close>

fun years_loop :: "client \<Rightarrow> string \<Rightarrow> ReferencePeriod \<Rightarrow> nat \<Rightarrow> nat list \<Rightarrow> worker_result \<Rightarrow> heap
    \<Rightarrow> exn option \<times> worker_result \<times> heap" where
  "years_loop cl now period m [] r h = (None, r, h)"
| "years_loop cl now period m (y # ys) r h =
     (case extract_fipe_value cl now period y h of
        (Inl e, h1) \<Rightarrow> (Some e, r, h1)
      | (Inr None, h1) \<Rightarrow> years_loop cl now period m ys r h1
      | (Inr (Some fipe_value), h1) \<Rightarrow>
          (let r1 = r\<lparr>wr_year_models := wr_year_models r @ [y],
                      wr_fipe_values := wr_fipe_values r @ [fipe_value]\<rparr>;
               h2 = (if vo_fipe_code fipe_value \<noteq> [] \<and> m_fipe_code (model_at h1 m) = []
                     then h1\<lparr>model_at := (model_at h1)
                            (m := (model_at h1 m)\<lparr>m_fipe_code := vo_fipe_code fipe_value\<rparr>)\<rparr>
                     else h1)
           in years_loop cl now period m ys r1 h2))"

fun models_loop :: "client \<Rightarrow> string \<Rightarrow> ReferencePeriod \<Rightarrow> nat list \<Rightarrow> worker_result \<Rightarrow> heap
    \<Rightarrow> exn option \<times> worker_result \<times> heap" where
  "models_loop cl now period [] r h = (None, r, h)"
| "models_loop cl now period (m # ms) r h =
     (case extract_year_models cl period m h of
        (Inl e, h1) \<Rightarrow> (Some e, r, h1)
      | (Inr ys, h1) \<Rightarrow>
          (case years_loop cl now period m ys r h1 of
             (Some e, r1, h2) \<Rightarrow> (Some e, r1, h2)
           | (None, r1, h2) \<Rightarrow>
               models_loop cl now period ms
                 (if m_fipe_code (model_at h2 m) \<noteq> [] then r1\<lparr>wr_models := wr_models r1 @ [m]\<rparr>
                  else r1)
                 h2))"

text \<open>
  \<^verbatim>\<open>_extract_worker\<close>. The task carries the period and the brand as dictionaries, from which
  the two objects are rebuilt. The body of the \<^verbatim>\<open>try\<close> runs the extraction and adds the brand
  last; \<^verbatim>\<open>except Exception\<close> logs whatever left it; the function then returns
  \<^verbatim>\<open>result.to_dict()\<close> in either case. The second component is the exception logged, if any.
\<close>

record ExtractionTask =
  task_id :: string
  task_period :: ReferencePeriod
  task_brand :: Brand
  task_vehicle_type :: int

definition empty_worker_result :: worker_result where
  "empty_worker_result = \<lparr>wr_brands = [], wr_models = [], wr_year_models = [], wr_fipe_values = []\<rparr>"

definition worker_body :: "client \<Rightarrow> string \<Rightarrow> ExtractionTask \<Rightarrow> exn option \<times> worker_result \<times> heap" where
  "worker_body cl now task =
     (case extract_for_brand cl (task_period task) (task_brand task) empty_heap of
        (Inl e, h) \<Rightarrow> (Some e, empty_worker_result, h)
      | (Inr ms, h) \<Rightarrow>
          (case models_loop cl now (task_period task) ms empty_worker_result h of
             (Some e, r, h1) \<Rightarrow> (Some e, r, h1)
           | (None, r, h1) \<Rightarrow> (None, r\<lparr>wr_brands := wr_brands r @ [task_brand task]\<rparr>, h1)))"

definition extract_worker :: "client \<Rightarrow> string \<Rightarrow> ExtractionTask \<Rightarrow> ExtractionResult \<times> exn option" where
  "extract_worker cl now task =
     (case worker_body cl now task of (logged, r, h) \<Rightarrow> (to_dict h r, logged))"

section \<open>Parallel execution (scrapers/orchestrator.py)\<close>

text \<open>
  What \<^verbatim>\<open>future.result()\<close> gives for a task: the dictionary \<^verbatim>\<open>_extract_worker\<close> returned, or
  an exception when the call did not complete (\<open>failure\<close>: a broken process pool, a value
  that does not pickle, an exception of the worker outside its own \<^verbatim>\<open>try\<close>).
\<close>

definition future_result :: "client \<Rightarrow> string \<Rightarrow> exn option \<Rightarrow> ExtractionTask \<Rightarrow> exn + ExtractionResult" where
  "future_result cl now failure task =
     (case failure of
        Some e \<Rightarrow> Inl e
      | None \<Rightarrow> Inr (fst (extract_worker cl now task)))"

text \<open>
  \<^verbatim>\<open>_process_batch\<close>, given the futures in the order \<^verbatim>\<open>as_completed\<close> yields them, each with
  its task and its outcome: the list \<^verbatim>\<open>results\<close>, and the errors logged with their task ids.
  A future is asked for its result once.
\<close>

fun process_batch :: "(ExtractionTask \<times> (exn + ExtractionResult)) list
    \<Rightarrow> ExtractionResult list \<times> (string \<times> exn) list" where
  "process_batch [] = ([], [])"
| "process_batch ((task, Inr result) # rest) =
     (case process_batch rest of (results, logged) \<Rightarrow> (result # results, logged))"
| "process_batch ((task, Inl e) # rest) =
     (case process_batch rest of (results, logged) \<Rightarrow> (results, (task_id task, e) # logged))"

text \<open>
  \<^verbatim>\<open>_dict_to_result\<close>. The entities are rebuilt from the dictionaries; a model takes the
  brand object of the same (name, vehicle type) from the brands of the same dictionary when
  there is one, a year-model the model object of the same (fipe code, vehicle type), a
  value the year-model object of the same authentication. A cache keeps the last object
  stored under a key.
\<close>

definition cache_of :: "('a \<Rightarrow> 'k) \<Rightarrow> 'a list \<Rightarrow> 'k \<Rightarrow> 'a option" where
  "cache_of key xs = map_of (rev (map (\<lambda>x. (key x, x)) xs))"

definition cached :: "('k \<Rightarrow> 'a option) \<Rightarrow> 'k \<Rightarrow> 'a \<Rightarrow> 'a" where
  "cached cache k rebuilt = (case cache k of Some x \<Rightarrow> x | None \<Rightarrow> rebuilt)"

definition dict_to_result :: "ExtractionResult \<Rightarrow> ExtractionResult" where
  "dict_to_result data =
     (let brand_cache = cache_of brand_key (brands data);
          ms = map (\<lambda>m_dict. m_dict\<lparr>m_brand :=
                 cached brand_cache (brand_key (m_brand m_dict)) (m_brand m_dict)\<rparr>) (models data);
          model_cache = cache_of model_key ms;
          ys = map (\<lambda>y_dict. y_dict\<lparr>ym_model :=
                 cached model_cache (model_key (ym_model y_dict)) (ym_model y_dict)\<rparr>)
                 (year_models data);
          year_model_cache = cache_of year_model_key ys;
          vs = map (\<lambda>v_dict. v_dict\<lparr>fv_year_model :=
                 cached year_model_cache (year_model_key (fv_year_model v_dict))
                   (fv_year_model v_dict)\<rparr>) (fipe_values data)
      in \<lparr>reference_periods = reference_periods data, brands = brands data, models = ms,
          year_models = ys, fipe_values = vs\<rparr>)"

text \<open>
  The parallel branch of \<^verbatim>\<open>Orchestrator.run\<close>, one batch after the other: the results of a
  batch are merged into the running result, which is then written whole to the partial
  file of the batch. \<open>k\<close> counts the batches; \<^verbatim>\<open>batch_idx\<close> is \<open>k * batch_size\<close>.
\<close>

fun show_digit :: "nat \<Rightarrow> char" where
  "show_digit n = (''0123456789'' ! (n mod 10))"

function show_nat :: "nat \<Rightarrow> string" where
  "show_nat n = (if n < 10 then [show_digit n] else show_nat (n div 10) @ [show_digit n])"
  by pat_completeness auto
termination
  by (relation "measure id") auto

declare show_nat.simps [simp del]

definition partial_filename :: "nat \<Rightarrow> string" where
  "partial_filename k = ''batch_'' @ show_nat k @ ''.json''"

definition merge_batch :: "ExtractionResult \<Rightarrow> ExtractionResult list \<Rightarrow> ExtractionResult" where
  "merge_batch final_result batch_results = foldl merge final_result (map dict_to_result batch_results)"

fun run_batches :: "nat \<Rightarrow> nat \<Rightarrow> ExtractionResult
    \<Rightarrow> (ExtractionTask \<times> (exn + ExtractionResult)) list list
    \<Rightarrow> ExtractionResult \<times> (string \<times> file_content) list" where
  "run_batches batch_size k final_result [] = (final_result, [])"
| "run_batches batch_size k final_result (batch # rest) =
     (let merged = merge_batch final_result (fst (process_batch batch));
          written = (partial_filename k, Json (Wrapped (int (k * batch_size)) merged))
      in case run_batches batch_size (Suc k) merged rest of
           (final, files) \<Rightarrow> (final, written # files))"

text \<open>
  The scenario of the specification: period 01/2024 (code 320), brand FIAT (code 21, car),
  models UNO (123) and PALIO (789), one year-model each. The value lookup for UNO succeeds;
  the one for PALIO does what the argument says.
\<close>

definition january :: ReferencePeriod where
  "january = \<lparr>rp_period = ''01/2024'', rp_code = 320\<rparr>"

definition uno_value :: value_response where
  "uno_value = \<lparr>vr_valor = ''R$ 35.000,00'', vr_codigo_fipe = ''001004-9'',
     vr_autenticacao = ''abc123'', vr_combustivel = ''Gasolina''\<rparr>"

definition demo_client :: "(exn + value_response pyobj) \<Rightarrow> client" where
  "demo_client palio_answer =
     \<lparr>get_models = (\<lambda>period_code vehicle_type brand_code.
        Inr (Dict [Dict \<lparr>mi_label = ''UNO'', mi_value = Some 123\<rparr>,
                   Dict \<lparr>mi_label = ''PALIO'', mi_value = Some 789\<rparr>])),
      get_year_models = (\<lambda>period_code vehicle_type brand_code model_code.
        Inr [Dict \<lparr>yi_label = ''2024 Gasolina'', yi_value = ''2024-1''\<rparr>]),
      get_fipe_value = (\<lambda>period_code vehicle_type brand_code model_code year_code.
        if model_code = 123 then Inr (Dict uno_value) else palio_answer)\<rparr>"

definition demo_task :: ExtractionTask where
  "demo_task = \<lparr>task_id = ''1a2b3c4d'', task_period = january, task_brand = fiat,
     task_vehicle_type = 1\<rparr>"

definition demo_now :: string where
  "demo_now = ''2024-01-15T10:00:00''"

definition uno_found :: Model where
  "uno_found = \<lparr>m_name = ''UNO'', m_code = 123, m_fipe_code = ''001004-9'', m_brand = fiat,
     m_vehicle_type = ''car''\<rparr>"

definition uno_year :: YearModel where
  "uno_year = \<lparr>ym_description = ''2024 Gasolina'', ym_year_code = ''2024-1'',
     ym_authentication = ''abc123'', ym_model = uno_found\<rparr>"

definition uno_fipe_value :: FipeValue where
  "uno_fipe_value = \<lparr>fv_year_model = uno_year, fv_average_price = ''R$ 35.000,00'',
     fv_query_timestamp = demo_now, fv_reference_period = ''01/2024'',
     fv_fipe_code = ''001004-9'', fv_fuel = ''Gasolina''\<rparr>"

text \<open>
  Vocabulary for the statements about the worker. \<open>code_from_lookup\<close>: the fipe code of a
  model is one that a value lookup for this model (its brand code, its model code, some
  year code) returned in a well-formed answer. \<open>codes_justified\<close>: every model object of
  the store has an empty fipe code or one from such a lookup. \<open>codes_kept\<close>: no fipe code
  that was set has become empty.
\<close>

definition code_from_lookup :: "client \<Rightarrow> ReferencePeriod \<Rightarrow> Model \<Rightarrow> bool" where
  "code_from_lookup cl period model =
     (\<exists>vehicle_type_code year_code response.
        from_string (m_vehicle_type model) = Inr vehicle_type_code
        \<and> get_fipe_value cl (rp_code period) vehicle_type_code (b_code (m_brand model))
             (m_code model) year_code = Inr (Dict response)
        \<and> vr_codigo_fipe response = m_fipe_code model)"

definition codes_justified :: "client \<Rightarrow> ReferencePeriod \<Rightarrow> heap \<Rightarrow> bool" where
  "codes_justified cl period h =
     (\<forall>a. m_fipe_code (model_at h a) = [] \<or> code_from_lookup cl period (model_at h a))"

definition codes_kept :: "heap \<Rightarrow> heap \<Rightarrow> bool" where
  "codes_kept h h' = (\<forall>a. m_fipe_code (model_at h a) \<noteq> [] \<longrightarrow> m_fipe_code (model_at h' a) \<noteq> [])"




section \<open>Properties of merge\<close>

lemma merge_loop_first_seen: "merge_loop key acc seen xs = acc @ first_seen key seen xs"
  by (induction xs arbitrary: acc seen) auto

lemma first_seen_keys: "key ` set (first_seen key seen xs) = key ` set xs - seen"
  by (induction xs arbitrary: seen) auto

lemma first_seen_subset: "set (first_seen key seen xs) \<subseteq> set xs"
  by (induction xs arbitrary: seen) auto

lemma first_seen_skip: "key ` set xs \<subseteq> seen \<Longrightarrow> first_seen key seen xs = []"
  by (induction xs arbitrary: seen) auto

lemma merge_list_keys: "key ` set (merge_list key xs ys) = key ` set xs \<union> key ` set ys"
proof -
  have "key ` set (merge_list key xs ys) = key ` set xs \<union> (key ` set ys - key ` set xs)"
    by (simp add: merge_list_def merge_loop_first_seen image_Un first_seen_keys)
  then show ?thesis by simp
qed

lemma first_seen_retained:
  "k \<in> seen \<Longrightarrow> retained_with key k (first_seen key seen xs) = []"
  by (induction xs arbitrary: seen) (auto simp: retained_with_def)

lemma merge_list_retained:
  "k \<in> key ` set xs \<Longrightarrow> retained_with key k (merge_list key xs ys) = retained_with key k xs"
  using first_seen_retained [of k "key ` set xs" key ys]
  by (simp add: merge_list_def merge_loop_first_seen retained_with_def)

lemma merge_list_same: "merge_list key xs xs = xs"
  by (simp add: merge_list_def merge_loop_first_seen first_seen_skip)

lemma merge_self_loop_seen: "key ` set xs \<subseteq> seen \<Longrightarrow> merge_self_loop key xs seen i = xs"
proof (induction "length xs - i" arbitrary: i)
  case 0
  then show ?case by (subst merge_self_loop.simps) simp
next
  case (Suc n)
  then have lt: "i < length xs" by simp
  with Suc.prems have mem: "key (xs ! i) \<in> seen" by auto
  have "n = length xs - Suc i" using Suc.hyps(2) by simp
  then have "merge_self_loop key xs seen (Suc i) = xs"
    using Suc.hyps(1) Suc.prems by blast
  with lt mem show ?case by (subst merge_self_loop.simps) simp
qed

lemma merge_self_list_same: "merge_self_list key xs = xs"
  by (simp add: merge_self_list_def merge_self_loop_seen)

lemma merge_same: "merge r r = r"
  by (simp add: merge_def merge_list_same)

lemma merge_self_same: "merge_self r = r"
  by (simp add: merge_self_def merge_self_list_same)

lemma membership_merge:
  "membership (merge a b) =
     (period_key ` set (reference_periods a) \<union> period_key ` set (reference_periods b),
      brand_key ` set (brands a) \<union> brand_key ` set (brands b),
      model_key ` set (models a) \<union> model_key ` set (models b),
      year_model_key ` set (year_models a) \<union> year_model_key ` set (year_models b),
      fipe_value_key ` set (fipe_values a) \<union> fipe_value_key ` set (fipe_values b))"
  by (simp add: membership_def merge_def merge_list_keys)

lemma merge_empty_keys:
  "period_key ` set (reference_periods (merge empty_result a)) = period_key ` set (reference_periods a)"
  "brand_key ` set (brands (merge empty_result a)) = brand_key ` set (brands a)"
  "model_key ` set (models (merge empty_result a)) = model_key ` set (models a)"
  "year_model_key ` set (year_models (merge empty_result a)) = year_model_key ` set (year_models a)"
  "fipe_value_key ` set (fipe_values (merge empty_result a)) = fipe_value_key ` set (fipe_values a)"
  by (simp_all add: merge_def merge_list_keys empty_result_def)

text \<open>
  Claim C8. Merge is idempotent: merging a result into itself leaves the number of entries
  of each of the five collections unchanged. It holds for \<^verbatim>\<open>r.merge(r)\<close> on one object
  (\<open>merge_self\<close>, where the loop reads the list it appends to) and for two results of equal
  content (\<open>merge\<close>); in both the result is left as it was.
\<close>

theorem merge_idempotent:
  "entity_counts (merge_self r) = entity_counts r \<and> entity_counts (merge r r) = entity_counts r
   \<and> merge_self r = r \<and> merge r r = r"
  by (simp add: merge_same merge_self_same)

text \<open>
  Claim C4. First seen wins: for every identity key already present in the target, the
  entries of the merged result with that key are exactly the target's own, so an incoming
  entity with that key is discarded whatever attributes it carries, and nothing is
  overwritten. The sets of identity keys after merging a then b equal those after merging b
  then a (both into one another and into an empty result), while the retained entry
  depends on the order: \<open>result_a\<close> and \<open>result_b\<close> hold a model of the same identity with
  different names, and each order keeps the first one.
\<close>

theorem merge_first_seen_wins:
  "(\<forall>k. k \<in> period_key ` set (reference_periods target) \<longrightarrow>
      retained_with period_key k (reference_periods (merge target source))
        = retained_with period_key k (reference_periods target))
   \<and> (\<forall>k. k \<in> brand_key ` set (brands target) \<longrightarrow>
      retained_with brand_key k (brands (merge target source))
        = retained_with brand_key k (brands target))
   \<and> (\<forall>k. k \<in> model_key ` set (models target) \<longrightarrow>
      retained_with model_key k (models (merge target source))
        = retained_with model_key k (models target))
   \<and> (\<forall>k. k \<in> year_model_key ` set (year_models target) \<longrightarrow>
      retained_with year_model_key k (year_models (merge target source))
        = retained_with year_model_key k (year_models target))
   \<and> (\<forall>k. k \<in> fipe_value_key ` set (fipe_values target) \<longrightarrow>
      retained_with fipe_value_key k (fipe_values (merge target source))
        = retained_with fipe_value_key k (fipe_values target))
   \<and> membership (merge target source) = membership (merge source target)
   \<and> membership (merge (merge empty_result target) source)
        = membership (merge (merge empty_result source) target)
   \<and> models (merge result_a result_b) = [uno_first]
   \<and> models (merge result_b result_a) = [uno_second]
   \<and> uno_first \<noteq> uno_second"
proof -
  have r1: "\<forall>k. k \<in> period_key ` set (reference_periods target) \<longrightarrow>
      retained_with period_key k (reference_periods (merge target source))
        = retained_with period_key k (reference_periods target)"
    by (simp add: merge_def merge_list_retained)
  have r2: "\<forall>k. k \<in> brand_key ` set (brands target) \<longrightarrow>
      retained_with brand_key k (brands (merge target source))
        = retained_with brand_key k (brands target)"
    by (simp add: merge_def merge_list_retained)
  have r3: "\<forall>k. k \<in> model_key ` set (models target) \<longrightarrow>
      retained_with model_key k (models (merge target source))
        = retained_with model_key k (models target)"
    by (simp add: merge_def merge_list_retained)
  have r4: "\<forall>k. k \<in> year_model_key ` set (year_models target) \<longrightarrow>
      retained_with year_model_key k (year_models (merge target source))
        = retained_with year_model_key k (year_models target)"
    by (simp add: merge_def merge_list_retained)
  have r5: "\<forall>k. k \<in> fipe_value_key ` set (fipe_values target) \<longrightarrow>
      retained_with fipe_value_key k (fipe_values (merge target source))
        = retained_with fipe_value_key k (fipe_values target)"
    by (simp add: merge_def merge_list_retained)
  have m1: "membership (merge target source) = membership (merge source target)"
    by (simp add: membership_merge Un_commute)
  have m2: "membership (merge (merge empty_result target) source)
      = membership (merge (merge empty_result source) target)"
    by (simp add: membership_merge merge_empty_keys Un_commute)
  have e1: "models (merge result_a result_b) = [uno_first]"
    by (simp add: merge_def merge_list_def result_a_def result_b_def empty_result_def
        model_key_def uno_first_def uno_second_def)
  have e2: "models (merge result_b result_a) = [uno_second]"
    by (simp add: merge_def merge_list_def result_a_def result_b_def empty_result_def
        model_key_def uno_first_def uno_second_def)
  have e3: "uno_first \<noteq> uno_second"
    by (simp add: uno_first_def uno_second_def)
  show ?thesis
    by (intro conjI r1 r2 r3 r4 r5 m1 m2 e1 e2 e3)
qed

theorem merge_first_seen_wins_witness:
  "(''001004-9'', ''car'') \<in> model_key ` set (models result_a)
   \<and> retained_with model_key (''001004-9'', ''car'') (models (merge result_a result_b))
       = [uno_first]
   \<and> uno_second \<in> set (models result_b)
   \<and> model_key uno_second = (''001004-9'', ''car'')"
proof -
  have k: "(''001004-9'', ''car'') \<in> model_key ` set (models result_a)"
    by (simp add: result_a_def empty_result_def model_key_def uno_first_def)
  have "retained_with model_key (''001004-9'', ''car'') (models (merge result_a result_b))
      = retained_with model_key (''001004-9'', ''car'') (models result_a)"
    using merge_first_seen_wins [of result_a result_b] k by blast
  then show ?thesis
    by (simp add: retained_with_def result_a_def result_b_def empty_result_def model_key_def
        uno_first_def uno_second_def)
qed

section \<open>Properties of the client\<close>



text \<open>
  When every attempt raises a retryable exception and the ceiling is at least the current
  attempt number, the loop makes exactly \<open>stop\<close> attempts and ends with the exception of the
  last one: as it is under \<^verbatim>\<open>reraise=True\<close>, inside \<^verbatim>\<open>RetryError\<close> otherwise.
\<close>

lemma retrying_all_retryable:
  "(\<And>k. 1 \<le> k \<Longrightarrow> \<exists>e. f k = Inl e \<and> retryable e) \<Longrightarrow> 1 \<le> n \<Longrightarrow> int n \<le> stop \<Longrightarrow>
   retrying reraise stop f n =
     (case f (nat stop) of
        Inl e \<Rightarrow> (Inl (if reraise then e else RetryError e), nat stop)
      | Inr v \<Rightarrow> (Inr v, nat stop))"
proof (induction "nat (stop - int n)" arbitrary: n)
  case 0
  then have eq: "int n = stop" by simp
  then have n: "nat stop = n" by simp
  obtain e where e: "f n = Inl e" "retryable e"
    using "0.prems"(1) [of n] "0.prems"(2) by blast
  show ?case unfolding n using e eq by (subst retrying.simps) simp
next
  case (Suc m)
  obtain e where e: "f n = Inl e" "retryable e"
    using Suc.prems(1) [of n] Suc.prems(2) by blast
  have lt: "\<not> int n \<ge> stop" using Suc.hyps(2) by simp
  have "m = nat (stop - int (Suc n))" using Suc.hyps(2) by simp
  then have "retrying reraise stop f (Suc n) =
     (case f (nat stop) of
        Inl e \<Rightarrow> (Inl (if reraise then e else RetryError e), nat stop)
      | Inr v \<Rightarrow> (Inr v, nat stop))"
    using Suc.hyps(1) [of "Suc n"] Suc.prems lt by simp
  then show ?case using e lt by (subst retrying.simps) simp
qed

lemma make_request_exhausted:
  assumes "\<And>k. 1 \<le> k \<Longrightarrow> \<exists>e. attempt (post k) = Inl e \<and> retryable e" and "1 \<le> max_retries"
  shows "\<exists>e. attempt (post (nat max_retries)) = Inl e \<and> retryable e
           \<and> make_request max_retries post = (Inl (RetryError e), nat max_retries)"
proof -
  have "1 \<le> nat max_retries" using assms(2) by simp
  then obtain e where e: "attempt (post (nat max_retries)) = Inl e" "retryable e"
    using assms(1) [of "nat max_retries"] by blast
  have "make_request max_retries post
      = (case attempt (post (nat max_retries)) of
           Inl e \<Rightarrow> (Inl (if False then e else RetryError e), nat max_retries)
         | Inr v \<Rightarrow> (Inr v, nat max_retries))"
    unfolding make_request_def
    using assms by (intro retrying_all_retryable) auto
  with e show ?thesis by simp
qed

text \<open>
  Claim C3, at the transport that answers 429 every time, with the default ceiling of five
  attempts: the call makes exactly five transport invocations, and what reaches the
  caller is \<^verbatim>\<open>tenacity.RetryError\<close> around the last \<^verbatim>\<open>FipeRateLimitError\<close>, not that error
  itself, because the decorator leaves \<^verbatim>\<open>reraise\<close> at its default.
\<close>

theorem make_request_exhaustion_wraps:
  "make_request 5 (\<lambda>n. Response too_many_requests)
     = (Inl (RetryError (FipeRateLimitError RateLimitAtingido)), 5)
   \<and> retrying True 5 (\<lambda>n. attempt (Response too_many_requests)) 1
     = (Inl (FipeRateLimitError RateLimitAtingido), 5)"
  by (simp add: make_request_def retrying.simps attempt_def too_many_requests_def)



text \<open>
  Claim C9. Pacing between two consecutive calls on one client. The first call leaves its
  second clock reading \<open>a2\<close> as the timestamp; the second call reads \<open>b1\<close>, asks for a sleep
  of the remaining \<open>delay - (b1 - a2)\<close> exactly when less than \<open>delay\<close> has elapsed, and
  stores its second reading \<open>b2\<close>. On a clock that does not run backwards and with a sleep
  that lasts at least as long as asked, \<open>b2\<close>, after which the request is sent, is at
  least \<open>delay\<close> later than \<open>a2\<close>.
\<close>

theorem pacing_between_calls:
  assumes "first_call = wait_for_rate_limit delay t0 a1 a2"
    and "second_call = wait_for_rate_limit delay (snd first_call) b1 b2"
    and "clock_ok b1 (fst second_call) b2"
  shows "snd first_call = a2 \<and> snd second_call = b2
    \<and> fst second_call = (if b1 - a2 < delay then Some (delay - (b1 - a2)) else None)
    \<and> delay \<le> snd second_call - snd first_call"
  using assms
  by (auto simp: wait_for_rate_limit_def clock_ok_def Let_def split: if_splits)

theorem pacing_between_calls_witness:
  "clock_ok (1002 / 10) (fst (wait_for_rate_limit (1 / 2) 100 (1002 / 10) (1005 / 10))) (1005 / 10)
   \<and> fst (wait_for_rate_limit (1 / 2) 100 (1002 / 10) (1005 / 10)) = Some (3 / 10)
   \<and> (1 / 2 :: real) \<le> snd (wait_for_rate_limit (1 / 2) 100 (1002 / 10) (1005 / 10))
        - snd (wait_for_rate_limit (1 / 2) 0 100 100)"
proof -
  have ok: "clock_ok (1002 / 10)
      (fst (wait_for_rate_limit (1 / 2) (snd (wait_for_rate_limit (1 / 2) 0 100 100)) (1002 / 10) (1005 / 10)))
      (1005 / 10)"
    by (simp add: wait_for_rate_limit_def clock_ok_def Let_def)
  have eq: "snd (wait_for_rate_limit (1 / 2) 0 100 100) = 100"
    by (simp add: wait_for_rate_limit_def)
  from pacing_between_calls [OF refl refl ok] show ?thesis
    using ok by (simp add: eq)
qed

section \<open>Properties of consolidation\<close>

lemma add_entries_first_seen:
  "add_entries key ok (seen, acc) xs
     = (seen \<union> key ` set (filter (\<lambda>x. ok (key x)) xs),
        acc @ first_seen key seen (filter (\<lambda>x. ok (key x)) xs))"
  by (induction xs arbitrary: seen acc) auto

lemma first_seen_append:
  "first_seen key seen (xs @ ys)
     = first_seen key seen xs @ first_seen key (seen \<union> key ` set xs) ys"
  by (induction xs arbitrary: seen) (auto simp: insert_absorb)

lemma add_entries_Nil: "add_entries key ok s [] = s"
  by (cases s) simp

lemma add_entries_append:
  "add_entries key ok (add_entries key ok s xs) ys = add_entries key ok s (xs @ ys)"
  by (cases s) (simp add: add_entries_first_seen first_seen_append Un_assoc image_Un)

lemma consolidate_file_acc:
  "periods_acc (consolidate_file st c)
     = add_entries period_file_key truthy (periods_acc st) (reference_periods (file_entries c))"
  "brands_acc (consolidate_file st c)
     = add_entries brand_file_key truthy_fst (brands_acc st) (brands (file_entries c))"
  "models_acc (consolidate_file st c)
     = add_entries model_file_key truthy_fst (models_acc st) (models (file_entries c))"
  "year_models_acc (consolidate_file st c)
     = add_entries year_file_key truthy_fst (year_models_acc st) (year_models (file_entries c))"
  "fipe_values_acc (consolidate_file st c)
     = add_entries value_file_key truthy_fst (fipe_values_acc st) (fipe_values (file_entries c))"
  by (cases c; simp add: consolidate_file_def empty_result_def add_entries_Nil)+

lemma foldl_consolidate_file:
  "periods_acc (foldl consolidate_file st cs)
     = add_entries period_file_key truthy (periods_acc st)
         (concat (map (\<lambda>c. reference_periods (file_entries c)) cs))
   \<and> brands_acc (foldl consolidate_file st cs)
     = add_entries brand_file_key truthy_fst (brands_acc st)
         (concat (map (\<lambda>c. brands (file_entries c)) cs))
   \<and> models_acc (foldl consolidate_file st cs)
     = add_entries model_file_key truthy_fst (models_acc st)
         (concat (map (\<lambda>c. models (file_entries c)) cs))
   \<and> year_models_acc (foldl consolidate_file st cs)
     = add_entries year_file_key truthy_fst (year_models_acc st)
         (concat (map (\<lambda>c. year_models (file_entries c)) cs))
   \<and> fipe_values_acc (foldl consolidate_file st cs)
     = add_entries value_file_key truthy_fst (fipe_values_acc st)
         (concat (map (\<lambda>c. fipe_values (file_entries c)) cs))"
proof (induction cs arbitrary: st)
  case Nil
  show ?case by (simp add: add_entries_Nil)
next
  case (Cons c cs)
  show ?case
    by (simp add: Cons.IH [of "consolidate_file st c"] consolidate_file_acc add_entries_append)
qed





lemma short_rev: "length ys \<le> 1 \<Longrightarrow> rev ys = ys"
  by (cases ys) auto




lemma consolidate_files_lists:
  "reference_periods (consolidate_files cs)
     = sort_periods (consolidated_entries period_file_key truthy
         (concat (map (\<lambda>c. reference_periods (file_entries c)) cs)))"
  "brands (consolidate_files cs)
     = sort_brands (consolidated_entries brand_file_key truthy_fst
         (concat (map (\<lambda>c. brands (file_entries c)) cs)))"
  "models (consolidate_files cs)
     = sort_models (consolidated_entries model_file_key truthy_fst
         (concat (map (\<lambda>c. models (file_entries c)) cs)))"
  "year_models (consolidate_files cs)
     = consolidated_entries year_file_key truthy_fst
         (concat (map (\<lambda>c. year_models (file_entries c)) cs))"
  "fipe_values (consolidate_files cs)
     = consolidated_entries value_file_key truthy_fst
         (concat (map (\<lambda>c. fipe_values (file_entries c)) cs))"
  by (simp_all add: consolidate_files_def Let_def foldl_consolidate_file initial_consolidation_def
      add_entries_first_seen consolidated_entries_def)






























section \<open>Properties of the extractors and the worker\<close>

lemma codes_kept_refl: "codes_kept h h"
  by (simp add: codes_kept_def)

lemma codes_kept_trans: "codes_kept h h1 \<Longrightarrow> codes_kept h1 h2 \<Longrightarrow> codes_kept h h2"
  by (simp add: codes_kept_def)

lemma new_year_models: "model_at (snd (new_year y h)) = model_at h"
  by (simp add: new_year_def)

lemma years_from_items_models:
  "years_from_items m items h = (res, h') \<Longrightarrow> model_at h' = model_at h"
proof (induction m items h arbitrary: res h' rule: years_from_items.induct)
  case (1 m h)
  then show ?case by simp
next
  case (2 m items h)
  then show ?case by simp
next
  case (3 m item items h)
  obtain y h1 where n: "new_year \<lparr>yo_description = yi_label item, yo_year_code = yi_value item,
            yo_authentication = [], yo_model = m\<rparr> h = (y, h1)"
    by (cases "new_year \<lparr>yo_description = yi_label item, yo_year_code = yi_value item,
            yo_authentication = [], yo_model = m\<rparr> h")
  obtain res1 h2 where r: "years_from_items m items h1 = (res1, h2)"
    by (cases "years_from_items m items h1")
  have "model_at h2 = model_at h1"
    using "3.IH" [OF n [symmetric] refl r] .
  moreover have "model_at h1 = model_at h"
    using new_year_models [of _ h] n by (metis snd_conv)
  moreover have "h' = h2"
    using "3.prems" n r by (auto split: sum.splits)
  ultimately show ?case by simp
qed

lemma extract_year_models_models:
  "extract_year_models cl period m h = (res, h') \<Longrightarrow> model_at h' = model_at h"
  by (auto simp: extract_year_models_def Let_def years_from_items_models
      split: sum.splits)

lemma codes_justified_cong:
  "model_at h' = model_at h \<Longrightarrow> codes_justified cl period h' = codes_justified cl period h"
  by (simp add: codes_justified_def)

lemma codes_kept_cong: "model_at h' = model_at h \<Longrightarrow> codes_kept h h'"
  by (simp add: codes_kept_def)

lemma extract_fipe_value_Dict:
  assumes "from_string (m_vehicle_type (model_at h (yo_model (year_at h y)))) = Inr vt"
    and "get_fipe_value cl (rp_code period) vt (b_code (m_brand (model_at h (yo_model (year_at h y)))))
          (m_code (model_at h (yo_model (year_at h y)))) (yo_year_code (year_at h y)) = Inr (Dict response)"
  shows "fst (extract_fipe_value cl now period y h)
      = Inr (Some \<lparr>vo_year_model = y, vo_average_price = vr_valor response,
          vo_query_timestamp = now, vo_reference_period = rp_period period,
          vo_fipe_code = vr_codigo_fipe response, vo_fuel = vr_combustivel response\<rparr>)"
    and "year_at (snd (extract_fipe_value cl now period y h))
      = (year_at h)(y := (year_at h y)\<lparr>yo_authentication := vr_autenticacao response\<rparr>)"
    and "model_at (snd (extract_fipe_value cl now period y h))
      = (if vr_codigo_fipe response \<noteq> [] \<and> m_fipe_code (model_at h (yo_model (year_at h y))) = []
         then (model_at h)(yo_model (year_at h y) :=
                (model_at h (yo_model (year_at h y)))\<lparr>m_fipe_code := vr_codigo_fipe response\<rparr>)
         else model_at h)"
  using assms by (simp_all add: extract_fipe_value_def Let_def)

lemma extract_fipe_value_other:
  assumes "\<not> (\<exists>vt response.
      from_string (m_vehicle_type (model_at h (yo_model (year_at h y)))) = Inr vt
      \<and> get_fipe_value cl (rp_code period) vt (b_code (m_brand (model_at h (yo_model (year_at h y)))))
          (m_code (model_at h (yo_model (year_at h y)))) (yo_year_code (year_at h y)) = Inr (Dict response))"
  shows "snd (extract_fipe_value cl now period y h) = h"
    and "\<forall>v. fst (extract_fipe_value cl now period y h) \<noteq> Inr (Some v)"
proof -
  let ?model = "model_at h (yo_model (year_at h y))"
  show "snd (extract_fipe_value cl now period y h) = h"
  proof (cases "from_string (m_vehicle_type ?model)")
    case (Inl e)
    then show ?thesis by (simp add: extract_fipe_value_def Let_def)
  next
    case (Inr vt)
    then show ?thesis
      using assms
      by (cases "get_fipe_value cl (rp_code period) vt (b_code (m_brand ?model))
            (m_code ?model) (yo_year_code (year_at h y))")
         (simp_all add: extract_fipe_value_def Let_def split: pyobj.splits)
  qed
  show "\<forall>v. fst (extract_fipe_value cl now period y h) \<noteq> Inr (Some v)"
  proof (cases "from_string (m_vehicle_type ?model)")
    case (Inl e)
    then show ?thesis by (simp add: extract_fipe_value_def Let_def)
  next
    case (Inr vt)
    then show ?thesis
      using assms
      by (cases "get_fipe_value cl (rp_code period) vt (b_code (m_brand ?model))
            (m_code ?model) (yo_year_code (year_at h y))")
         (simp_all add: extract_fipe_value_def Let_def split: pyobj.splits)
  qed
qed


lemma extract_fipe_value_codes:
  assumes "codes_justified cl period h"
  shows "codes_justified cl period (snd (extract_fipe_value cl now period y h))
     \<and> codes_kept h (snd (extract_fipe_value cl now period y h))"
proof (cases "\<exists>vt response.
      from_string (m_vehicle_type (model_at h (yo_model (year_at h y)))) = Inr vt
      \<and> get_fipe_value cl (rp_code period) vt (b_code (m_brand (model_at h (yo_model (year_at h y)))))
          (m_code (model_at h (yo_model (year_at h y)))) (yo_year_code (year_at h y)) = Inr (Dict response)")
  case False
  then have "snd (extract_fipe_value cl now period y h) = h"
    by (rule extract_fipe_value_other(1))
  then show ?thesis using assms by (simp add: codes_kept_refl)
next
  case True
  let ?m = "yo_model (year_at h y)"
  let ?model = "model_at h ?m"
  let ?h' = "snd (extract_fipe_value cl now period y h)"
  from True obtain vt response where
    vt: "from_string (m_vehicle_type ?model) = Inr vt" and
    lookup: "get_fipe_value cl (rp_code period) vt (b_code (m_brand ?model))
          (m_code ?model) (yo_year_code (year_at h y)) = Inr (Dict response)"
    by blast
  note eq = extract_fipe_value_Dict(3) [OF vt lookup, of now]
  show ?thesis
  proof (cases "vr_codigo_fipe response \<noteq> [] \<and> m_fipe_code ?model = []")
    case False
    have same: "model_at ?h' = model_at h"
      by (simp only: eq if_not_P [OF False])
    have "codes_justified cl period ?h'"
      using assms by (simp only: codes_justified_cong [OF same])
    moreover have "codes_kept h ?h'"
      by (rule codes_kept_cong [OF same])
    ultimately show ?thesis by simp
  next
    case True
    have eq': "model_at ?h' = (model_at h)(?m := ?model\<lparr>m_fipe_code := vr_codigo_fipe response\<rparr>)"
      by (simp only: eq if_P [OF True])
    have "code_from_lookup cl period (?model\<lparr>m_fipe_code := vr_codigo_fipe response\<rparr>)"
      unfolding code_from_lookup_def using vt lookup by auto
    then have "codes_justified cl period ?h'"
      using assms by (simp add: codes_justified_def eq')
    moreover have "codes_kept h ?h'"
      using True by (simp add: codes_kept_def eq')
    ultimately show ?thesis by simp
  qed
qed

lemma extract_fipe_value_Some:
  assumes "fst (extract_fipe_value cl now period y h) = Inr (Some v)"
  shows "vo_fipe_code v \<noteq> [] \<longrightarrow>
     m_fipe_code (model_at (snd (extract_fipe_value cl now period y h)) (yo_model (year_at h y))) \<noteq> []"
proof (cases "\<exists>vt response.
      from_string (m_vehicle_type (model_at h (yo_model (year_at h y)))) = Inr vt
      \<and> get_fipe_value cl (rp_code period) vt (b_code (m_brand (model_at h (yo_model (year_at h y)))))
          (m_code (model_at h (yo_model (year_at h y)))) (yo_year_code (year_at h y)) = Inr (Dict response)")
  case False
  then show ?thesis using extract_fipe_value_other(2) assms by blast
next
  case True
  then obtain vt response where
    vt: "from_string (m_vehicle_type (model_at h (yo_model (year_at h y)))) = Inr vt" and
    lookup: "get_fipe_value cl (rp_code period) vt (b_code (m_brand (model_at h (yo_model (year_at h y)))))
          (m_code (model_at h (yo_model (year_at h y)))) (yo_year_code (year_at h y)) = Inr (Dict response)"
    by blast
  have "vo_fipe_code v = vr_codigo_fipe response"
    using extract_fipe_value_Dict(1) [OF vt lookup, of now] assms by simp
  then show ?thesis
    using extract_fipe_value_Dict(3) [OF vt lookup, of now] by simp
qed

lemma extract_fipe_value_year_model:
  "yo_model (year_at (snd (extract_fipe_value cl now period y h)) y') = yo_model (year_at h y')"
proof (cases "\<exists>vt response.
      from_string (m_vehicle_type (model_at h (yo_model (year_at h y)))) = Inr vt
      \<and> get_fipe_value cl (rp_code period) vt (b_code (m_brand (model_at h (yo_model (year_at h y)))))
          (m_code (model_at h (yo_model (year_at h y)))) (yo_year_code (year_at h y)) = Inr (Dict response)")
  case False
  then have "snd (extract_fipe_value cl now period y h) = h"
    by (rule extract_fipe_value_other(1))
  then show ?thesis by simp
next
  case True
  then obtain vt response where
    vt: "from_string (m_vehicle_type (model_at h (yo_model (year_at h y)))) = Inr vt" and
    lookup: "get_fipe_value cl (rp_code period) vt (b_code (m_brand (model_at h (yo_model (year_at h y)))))
          (m_code (model_at h (yo_model (year_at h y)))) (yo_year_code (year_at h y)) = Inr (Dict response)"
    by blast
  show ?thesis
    by (simp add: extract_fipe_value_Dict(2) [OF vt lookup, of now])
qed

lemma years_from_items_alloc:
  "years_from_items m items h = (res, h') \<Longrightarrow>
   (\<forall>a<year_count h. year_at h' a = year_at h a) \<and> year_count h \<le> year_count h'
   \<and> (\<forall>ys. res = Inr ys \<longrightarrow> (\<forall>y\<in>set ys. yo_model (year_at h' y) = m))"
proof (induction m items h arbitrary: res h' rule: years_from_items.induct)
  case (1 m h)
  then show ?case by auto
next
  case (2 m items h)
  then show ?case by auto
next
  case (3 m item items h)
  let ?obj = "\<lparr>yo_description = yi_label item, yo_year_code = yi_value item,
            yo_authentication = [], yo_model = m\<rparr>"
  let ?y = "year_count h"
  let ?h1 = "h\<lparr>year_at := (year_at h)(?y := ?obj), year_count := Suc ?y\<rparr>"
  have n: "(?y, ?h1) = new_year ?obj h"
    by (simp add: new_year_def)
  obtain res1 h2 where r: "years_from_items m items ?h1 = (res1, h2)"
    by (cases "years_from_items m items ?h1")
  note ih = "3.IH" [OF n refl r]
  have frame: "\<forall>a<Suc ?y. year_at h2 a = year_at ?h1 a" and le: "Suc ?y \<le> year_count h2"
    and refs: "\<forall>ys. res1 = Inr ys \<longrightarrow> (\<forall>y\<in>set ys. yo_model (year_at h2 y) = m)"
    using ih by simp_all
  have h': "h' = h2" and res: "res = (case res1 of Inl e \<Rightarrow> Inl e | Inr ys \<Rightarrow> Inr (?y # ys))"
    using "3.prems" r n [symmetric] by (auto split: sum.splits)
  have here: "year_at h2 ?y = ?obj"
    using frame by simp
  have a: "\<forall>a<year_count h. year_at h' a = year_at h a"
    using frame h' by simp
  have b: "year_count h \<le> year_count h'"
    using le h' by simp
  have c: "\<forall>ys. res = Inr ys \<longrightarrow> (\<forall>y\<in>set ys. yo_model (year_at h' y) = m)"
    using refs here h' res by (auto split: sum.splits)
  from a b c show ?case by blast
qed

lemma extract_year_models_refs:
  "extract_year_models cl period m h = (Inr ys, h') \<Longrightarrow> \<forall>y\<in>set ys. yo_model (year_at h' y) = m"
proof -
  assume a: "extract_year_models cl period m h = (Inr ys, h')"
  show ?thesis
  proof (cases "from_string (m_vehicle_type (model_at h m))")
    case (Inl e)
    with a show ?thesis by (simp add: extract_year_models_def Let_def)
  next
    case (Inr vt)
    show ?thesis
    proof (cases "get_year_models cl (rp_code period) vt (b_code (m_brand (model_at h m)))
        (m_code (model_at h m))")
      case (Inl e)
      with a Inr show ?thesis by (auto simp: extract_year_models_def Let_def)
    next
      case raw: (Inr raw_years)
      with a Inr have "years_from_items m raw_years h = (Inr ys, h')"
        by (simp add: extract_year_models_def Let_def)
      from years_from_items_alloc [OF this] show ?thesis by blast
    qed
  qed
qed


lemma years_loop_inv:
  assumes "years_loop cl now period m ys r h = (logged, r', h')"
    and "codes_justified cl period h"
    and "\<forall>y\<in>set ys. yo_model (year_at h y) = m"
  shows "codes_justified cl period h' \<and> codes_kept h h' \<and> wr_models r' = wr_models r
     \<and> wr_brands r' = wr_brands r"
  using assms
proof (induction ys arbitrary: r h)
  case Nil
  then show ?case by (simp add: codes_kept_refl)
next
  case (Cons y ys)
  obtain res h1 where step: "extract_fipe_value cl now period y h = (res, h1)"
    by (cases "extract_fipe_value cl now period y h")
  have h1: "h1 = snd (extract_fipe_value cl now period y h)"
    and res: "res = fst (extract_fipe_value cl now period y h)"
    using step by simp_all
  have just1: "codes_justified cl period h1" and kept1: "codes_kept h h1"
    using extract_fipe_value_codes [OF Cons.prems(2), of now y] h1 by simp_all
  have refs1: "\<forall>y'\<in>set ys. yo_model (year_at h1 y') = m"
    using Cons.prems(3) by (simp add: h1 extract_fipe_value_year_model)
  show ?case
  proof (cases res)
    case (Inl e)
    then have "(logged, r', h') = (Some e, r, h1)"
      using Cons.prems(1) step by simp
    then show ?thesis using just1 kept1 by simp
  next
    case (Inr found)
    show ?thesis
    proof (cases found)
      case None
      then have "years_loop cl now period m ys r h1 = (logged, r', h')"
        using Cons.prems(1) step Inr by simp
      from Cons.IH [OF this just1 refs1] show ?thesis
        using kept1 codes_kept_trans by blast
    next
      case (Some v)
      have "fst (extract_fipe_value cl now period y h) = Inr (Some v)"
        using res Inr Some by simp
      from extract_fipe_value_Some [OF this]
      have "vo_fipe_code v \<noteq> [] \<longrightarrow> m_fipe_code (model_at h1 m) \<noteq> []"
        using Cons.prems(3) h1 by simp
      then have nc: "\<not> (vo_fipe_code v \<noteq> [] \<and> m_fipe_code (model_at h1 m) = [])"
        by blast
      have "years_loop cl now period m (y # ys) r h
          = years_loop cl now period m ys
              (r\<lparr>wr_year_models := wr_year_models r @ [y], wr_fipe_values := wr_fipe_values r @ [v]\<rparr>)
              (if vo_fipe_code v \<noteq> [] \<and> m_fipe_code (model_at h1 m) = []
               then h1\<lparr>model_at := (model_at h1)
                      (m := (model_at h1 m)\<lparr>m_fipe_code := vo_fipe_code v\<rparr>)\<rparr>
               else h1)"
        using step Inr Some by (simp add: Let_def)
      then have "years_loop cl now period m ys
          (r\<lparr>wr_year_models := wr_year_models r @ [y], wr_fipe_values := wr_fipe_values r @ [v]\<rparr>) h1
          = (logged, r', h')"
        using Cons.prems(1) by (simp only: if_not_P [OF nc])
      from Cons.IH [OF this just1 refs1]
      have "codes_justified cl period h'" and "codes_kept h1 h'"
        and "wr_models r' = wr_models r" and "wr_brands r' = wr_brands r"
        by simp_all
      then show ?thesis
        using codes_kept_trans [OF kept1] by simp
    qed
  qed
qed

lemma models_loop_inv:
  assumes "models_loop cl now period ms r h = (logged, r', h')"
    and "codes_justified cl period h"
    and "\<forall>a\<in>set (wr_models r). m_fipe_code (model_at h a) \<noteq> []"
  shows "codes_justified cl period h' \<and> (\<forall>a\<in>set (wr_models r'). m_fipe_code (model_at h' a) \<noteq> [])
     \<and> wr_brands r' = wr_brands r"
  using assms
proof (induction ms arbitrary: r h)
  case Nil
  then show ?case by simp
next
  case (Cons m ms)
  obtain res h1 where step: "extract_year_models cl period m h = (res, h1)"
    by (cases "extract_year_models cl period m h")
  have same: "model_at h1 = model_at h"
    using extract_year_models_models [OF step] .
  have just1: "codes_justified cl period h1"
    using Cons.prems(2) by (simp only: codes_justified_cong [OF same])
  show ?case
  proof (cases res)
    case (Inl e)
    then have "(logged, r', h') = (Some e, r, h1)"
      using Cons.prems(1) step by simp
    then show ?thesis using just1 Cons.prems(3) same by simp
  next
    case (Inr ys)
    have refs: "\<forall>y\<in>set ys. yo_model (year_at h1 y) = m"
      using extract_year_models_refs step Inr by blast
    obtain logged1 r1 h2 where inner: "years_loop cl now period m ys r h1 = (logged1, r1, h2)"
      by (cases "years_loop cl now period m ys r h1")
    from years_loop_inv [OF inner just1 refs]
    have just2: "codes_justified cl period h2" and kept: "codes_kept h1 h2"
      and models1: "wr_models r1 = wr_models r" and brands1: "wr_brands r1 = wr_brands r"
      by simp_all
    have set2: "\<forall>a\<in>set (wr_models r1). m_fipe_code (model_at h2 a) \<noteq> []"
      using Cons.prems(3) kept same by (simp add: models1 codes_kept_def)
    show ?thesis
    proof (cases logged1)
      case (Some e)
      then have "(logged, r', h') = (Some e, r1, h2)"
        using Cons.prems(1) step Inr inner by simp
      then show ?thesis using just2 set2 brands1 by simp
    next
      case None
      let ?r2 = "if m_fipe_code (model_at h2 m) \<noteq> [] then r1\<lparr>wr_models := wr_models r1 @ [m]\<rparr>
                 else r1"
      have rest: "models_loop cl now period ms ?r2 h2 = (logged, r', h')"
        using Cons.prems(1) step Inr inner None by simp
      have set3: "\<forall>a\<in>set (wr_models ?r2). m_fipe_code (model_at h2 a) \<noteq> []"
        using set2 by simp
      have "wr_brands ?r2 = wr_brands r"
        using brands1 by simp
      with Cons.IH [OF rest just2 set3] show ?thesis by simp
    qed
  qed
qed

lemma models_from_items_blank:
  "models_from_items brand items h = (res, h') \<Longrightarrow> \<forall>a. m_fipe_code (model_at h a) = [] \<Longrightarrow>
   \<forall>a. m_fipe_code (model_at h' a) = []"
proof (induction brand items h arbitrary: res h' rule: models_from_items.induct)
  case (1 brand h)
  then show ?case by simp
next
  case (2 brand items h)
  then show ?case by simp
next
  case (3 brand item items h)
  show ?case
  proof (cases "mi_value item")
    case None
    with "3.prems" show ?thesis by simp
  next
    case (Some code)
    let ?model = "\<lparr>m_name = mi_label item, m_code = code, m_fipe_code = [],
                 m_brand = brand, m_vehicle_type = b_vehicle_type brand\<rparr>"
    let ?h1 = "h\<lparr>model_at := (model_at h)(model_count h := ?model), model_count := Suc (model_count h)\<rparr>"
    have n: "(model_count h, ?h1) = new_model ?model h"
      by (simp add: new_model_def)
    obtain res1 h2 where r: "models_from_items brand items ?h1 = (res1, h2)"
      by (cases "models_from_items brand items ?h1")
    have blank1: "\<forall>a. m_fipe_code (model_at ?h1 a) = []"
      using "3.prems"(2) by simp
    have "h' = h2"
      using "3.prems"(1) Some r n [symmetric] by (auto split: sum.splits)
    with "3.IH" [OF Some n refl r blank1] show ?thesis by simp
  qed
qed

lemma extract_for_brand_blank:
  assumes "extract_for_brand cl period brand h = (res, h')" and "\<forall>a. m_fipe_code (model_at h a) = []"
  shows "\<forall>a. m_fipe_code (model_at h' a) = []"
proof (cases "from_string (b_vehicle_type brand)")
  case (Inl e)
  with assms show ?thesis by (simp add: extract_for_brand_def)
next
  case (Inr vt)
  show ?thesis
  proof (cases "get_models cl (rp_code period) vt (b_code brand)")
    case (Inl e)
    with assms Inr show ?thesis by (simp add: extract_for_brand_def)
  next
    case answer: (Inr response)
    show ?thesis
    proof (cases response)
      case NotDict
      with assms Inr answer show ?thesis by (simp add: extract_for_brand_def)
    next
      case (Dict raw_models)
      with assms(1) Inr answer have "models_from_items brand raw_models h = (res, h')"
        by (simp add: extract_for_brand_def)
      from models_from_items_blank [OF this assms(2)] show ?thesis .
    qed
  qed
qed

lemma blank_codes_justified:
  "\<forall>a. m_fipe_code (model_at h a) = [] \<Longrightarrow> codes_justified cl period h"
  by (simp add: codes_justified_def)

lemma worker_body_inv:
  assumes "worker_body cl now task = (logged, r, h)"
  shows "codes_justified cl (task_period task) h
     \<and> (\<forall>a\<in>set (wr_models r). m_fipe_code (model_at h a) \<noteq> [])
     \<and> wr_brands r = (case logged of None \<Rightarrow> [task_brand task] | Some e \<Rightarrow> [])"
proof -
  obtain res h0 where first: "extract_for_brand cl (task_period task) (task_brand task) empty_heap = (res, h0)"
    by (cases "extract_for_brand cl (task_period task) (task_brand task) empty_heap")
  have "\<forall>a. m_fipe_code (model_at empty_heap a) = []"
    by (simp add: empty_heap_def)
  from extract_for_brand_blank [OF first this]
  have just0: "codes_justified cl (task_period task) h0"
    by (rule blank_codes_justified)
  show ?thesis
  proof (cases res)
    case (Inl e)
    then have "(logged, r, h) = (Some e, empty_worker_result, h0)"
      using assms first by (simp add: worker_body_def)
    then show ?thesis using just0 by (simp add: empty_worker_result_def)
  next
    case (Inr ms)
    obtain logged1 r1 h1 where loop:
      "models_loop cl now (task_period task) ms empty_worker_result h0 = (logged1, r1, h1)"
      by (cases "models_loop cl now (task_period task) ms empty_worker_result h0")
    have "\<forall>a\<in>set (wr_models empty_worker_result). m_fipe_code (model_at h0 a) \<noteq> []"
      by (simp add: empty_worker_result_def)
    from models_loop_inv [OF loop just0 this]
    have just1: "codes_justified cl (task_period task) h1"
      and set1: "\<forall>a\<in>set (wr_models r1). m_fipe_code (model_at h1 a) \<noteq> []"
      and brands1: "wr_brands r1 = []"
      by (simp_all add: empty_worker_result_def)
    show ?thesis
    proof (cases logged1)
      case (Some e)
      then have "(logged, r, h) = (Some e, r1, h1)"
        using assms first Inr loop by (simp add: worker_body_def)
      then show ?thesis using just1 set1 brands1 by simp
    next
      case None
      then have "(logged, r, h) = (None, r1\<lparr>wr_brands := wr_brands r1 @ [task_brand task]\<rparr>, h1)"
        using assms first Inr loop by (simp add: worker_body_def)
      then show ?thesis using just1 set1 brands1 by simp
    qed
  qed
qed

text \<open>
  Claim C10. Every model in the fragment a worker returns has a non-empty fipe code, and
  that code is one a value lookup for this very model returned in a well-formed answer
  (\<open>code_from_lookup\<close>). So a model whose value lookups all failed, or whose answers carried
  no fipe code, is not in the fragment. Its brand still is: when no exception left the
  extraction, the fragment holds the brand of the task.
\<close>

theorem worker_keeps_only_models_with_fipe_code:
  assumes "extract_worker cl now task = (fragment, logged)"
  shows "(\<forall>model\<in>set (models fragment).
            m_fipe_code model \<noteq> [] \<and> code_from_lookup cl (task_period task) model)
     \<and> (logged = None \<longrightarrow> brands fragment = [task_brand task])
     \<and> (\<forall>e. logged = Some e \<longrightarrow> brands fragment = [])"
proof -
  obtain r h where body: "worker_body cl now task = (logged, r, h)"
    and fragment: "fragment = to_dict h r"
    using assms by (cases "worker_body cl now task") (auto simp: extract_worker_def)
  from worker_body_inv [OF body]
  have just: "codes_justified cl (task_period task) h"
    and coded: "\<forall>a\<in>set (wr_models r). m_fipe_code (model_at h a) \<noteq> []"
    and brands: "wr_brands r = (case logged of None \<Rightarrow> [task_brand task] | Some e \<Rightarrow> [])"
    by simp_all
  have "\<forall>model\<in>set (models fragment).
      m_fipe_code model \<noteq> [] \<and> code_from_lookup cl (task_period task) model"
    using just coded by (auto simp: fragment to_dict_def codes_justified_def)
  moreover have "logged = None \<longrightarrow> brands fragment = [task_brand task]"
    using brands by (simp add: fragment to_dict_def)
  moreover have "\<forall>e. logged = Some e \<longrightarrow> brands fragment = []"
    using brands by (simp add: fragment to_dict_def)
  ultimately show ?thesis by blast
qed

text \<open>
  The scenario: the value lookup for UNO succeeds, the one for PALIO raises, or returns a
  JSON value that is not an object.
\<close>

lemma from_string_car: "from_string ''car'' = Inr 1"
  by (simp add: from_string_def lower_def lower_char_def strip_def is_space_def)

lemma demo_worker_lookup_fails:
  "extract_worker (demo_client (Inl (FipeRequestError (ApiErro ''nadaencontrado'')))) demo_now demo_task
   = (\<lparr>reference_periods = [], brands = [fiat], models = [uno_found], year_models = [uno_year],
        fipe_values = [uno_fipe_value]\<rparr>, None)"
  by (simp add: extract_worker_def worker_body_def extract_for_brand_def demo_task_def
      demo_client_def fiat_def january_def from_string_car
      new_model_def empty_heap_def extract_year_models_def new_year_def
      extract_fipe_value_def uno_value_def empty_worker_result_def to_dict_def year_dict_def
      value_dict_def uno_found_def uno_year_def uno_fipe_value_def Let_def)

lemma demo_worker_malformed:
  "extract_worker (demo_client (Inr NotDict)) demo_now demo_task
   = (\<lparr>reference_periods = [], brands = [], models = [uno_found], year_models = [uno_year],
        fipe_values = [uno_fipe_value]\<rparr>, Some AttributeError)"
  by (simp add: extract_worker_def worker_body_def extract_for_brand_def demo_task_def
      demo_client_def fiat_def january_def from_string_car
      new_model_def empty_heap_def extract_year_models_def new_year_def
      extract_fipe_value_def uno_value_def empty_worker_result_def to_dict_def year_dict_def
      value_dict_def uno_found_def uno_year_def uno_fipe_value_def Let_def)

theorem worker_keeps_only_models_with_fipe_code_witness:
  "extract_worker (demo_client (Inl (FipeRequestError (ApiErro ''nadaencontrado'')))) demo_now demo_task
     = (\<lparr>reference_periods = [], brands = [fiat], models = [uno_found], year_models = [uno_year],
          fipe_values = [uno_fipe_value]\<rparr>, None)
   \<and> m_fipe_code uno_found \<noteq> []
   \<and> code_from_lookup (demo_client (Inl (FipeRequestError (ApiErro ''nadaencontrado'')))) january uno_found
   \<and> task_brand demo_task = fiat"
  using worker_keeps_only_models_with_fipe_code [OF demo_worker_lookup_fails]
    demo_worker_lookup_fails
  by (simp add: demo_task_def)

lemma process_batch_step:
  "fst (process_batch ((task, Inr result) # rest)) = result # fst (process_batch rest)"
  "snd (process_batch ((task, Inr result) # rest)) = snd (process_batch rest)"
  "fst (process_batch ((task, Inl e) # rest)) = fst (process_batch rest)"
  "snd (process_batch ((task, Inl e) # rest)) = (task_id task, e) # snd (process_batch rest)"
  by (cases "process_batch rest"; simp)+

lemma process_batch_append:
  "fst (process_batch (xs @ ys)) = fst (process_batch xs) @ fst (process_batch ys)"
  "snd (process_batch (xs @ ys)) = snd (process_batch xs) @ snd (process_batch ys)"
proof (induction xs)
  case Nil
  { case 1 show ?case by simp }
  { case 2 show ?case by simp }
next
  case (Cons x xs)
  obtain task outcome where x: "x = (task, outcome)" by (cases x)
  { case 1 show ?case
      using Cons.IH(1) by (cases outcome) (simp_all add: x case_prod_beta) }
  { case 2 show ?case
      using Cons.IH(2) by (cases outcome) (simp_all add: x case_prod_beta) }
qed

lemma process_batch_results:
  "fst (process_batch outcomes) = [result. (task, Inr result) \<leftarrow> outcomes]"
proof (induction outcomes)
  case Nil
  show ?case by simp
next
  case (Cons x xs)
  obtain task outcome where x: "x = (task, outcome)" by (cases x)
  show ?case
    using Cons.IH by (cases outcome) (simp_all add: x case_prod_beta)
qed

lemma process_batch_lengths:
  "length (fst (process_batch outcomes)) + length (snd (process_batch outcomes)) = length outcomes"
proof (induction outcomes)
  case Nil
  show ?case by simp
next
  case (Cons x xs)
  obtain task outcome where x: "x = (task, outcome)" by (cases x)
  show ?case
    using Cons.IH by (cases outcome) (simp_all add: x case_prod_beta)
qed

lemma process_batch_raising:
  "fst (process_batch (pre @ (task, Inl e) # post)) = fst (process_batch (pre @ post))"
  "snd (process_batch (pre @ (task, Inl e) # post))
     = snd (process_batch pre) @ (task_id task, e) # snd (process_batch post)"
  by (simp_all add: process_batch_append case_prod_beta)

text \<open>
  Claim C2 as stated fails for an error raised inside the worker. Here the value lookup for
  the second model returns a JSON value that is not an object, so \<^verbatim>\<open>response.get\<close> raises
  \<^verbatim>\<open>AttributeError\<close> in \<^verbatim>\<open>extract_fipe_value\<close>. The worker catches and logs it and returns what it
  had collected: the future does not raise, \<^verbatim>\<open>_process_batch\<close> logs nothing and keeps the
  fragment, and the aggregate holds the model, year-model and value of the first model.
\<close>

theorem caught_error_keeps_fragment_counterexample:
  "snd (extract_worker (demo_client (Inr NotDict)) demo_now demo_task) = Some AttributeError
   \<and> process_batch [(demo_task, future_result (demo_client (Inr NotDict)) demo_now None demo_task)]
       = ([\<lparr>reference_periods = [], brands = [], models = [uno_found], year_models = [uno_year],
             fipe_values = [uno_fipe_value]\<rparr>], [])
   \<and> merge_batch empty_result (fst (process_batch
         [(demo_task, future_result (demo_client (Inr NotDict)) demo_now None demo_task)]))
       = \<lparr>reference_periods = [], brands = [], models = [uno_found], year_models = [uno_year],
             fipe_values = [uno_fipe_value]\<rparr>"
proof -
  have a: "snd (extract_worker (demo_client (Inr NotDict)) demo_now demo_task) = Some AttributeError"
    by (simp add: demo_worker_malformed)
  have b: "process_batch [(demo_task, future_result (demo_client (Inr NotDict)) demo_now None demo_task)]
       = ([\<lparr>reference_periods = [], brands = [], models = [uno_found], year_models = [uno_year],
             fipe_values = [uno_fipe_value]\<rparr>], [])"
    by (simp add: future_result_def demo_worker_malformed)
  have c: "merge_batch empty_result (fst (process_batch
         [(demo_task, future_result (demo_client (Inr NotDict)) demo_now None demo_task)]))
       = \<lparr>reference_periods = [], brands = [], models = [uno_found], year_models = [uno_year],
             fipe_values = [uno_fipe_value]\<rparr>"
    by (simp add: b merge_batch_def dict_to_result_def cache_of_def cached_def merge_def
        merge_list_def empty_result_def Let_def model_key_def year_model_key_def brand_key_def
        uno_found_def uno_year_def uno_fipe_value_def)
  show ?thesis by (intro conjI a b c)
qed

lemma worker_caught_no_brand:
  "snd (extract_worker cl now task) = Some e \<Longrightarrow> brands (fst (extract_worker cl now task)) = []"
  using worker_body_inv [of cl now task]
  by (cases "worker_body cl now task") (auto simp: extract_worker_def to_dict_def)

text \<open>
  Claim C2, amended. A task whose future raises (an error that escapes \<^verbatim>\<open>_extract_worker\<close>)
  contributes nothing: the results of the batch, and the running result merged from them,
  are what they would be without that task; its error is logged with its task id; every
  fragment of a future that returned is kept, in completion order, so the batch goes on;
  each future is asked once, so nothing is retried. An error raised inside the worker does
  not make the future raise: the worker returns the fragment it has built, without the
  brand.
\<close>

theorem raising_task_is_dropped:
  "(\<forall>pre task e post.
       fst (process_batch (pre @ (task, Inl e) # post)) = fst (process_batch (pre @ post))
       \<and> snd (process_batch (pre @ (task, Inl e) # post))
           = snd (process_batch pre) @ (task_id task, e) # snd (process_batch post)
       \<and> merge_batch final_result (fst (process_batch (pre @ (task, Inl e) # post)))
           = merge_batch final_result (fst (process_batch (pre @ post))))
   \<and> fst (process_batch outcomes) = [result. (task, Inr result) \<leftarrow> outcomes]
   \<and> length (fst (process_batch outcomes)) + length (snd (process_batch outcomes)) = length outcomes
   \<and> (\<forall>cl now task failure. future_result cl now (Some failure) task = Inl failure)
   \<and> (\<forall>cl now task. future_result cl now None task = Inr (fst (extract_worker cl now task)))
   \<and> (\<forall>cl now task e. snd (extract_worker cl now task) = Some e
        \<longrightarrow> brands (fst (extract_worker cl now task)) = [])"
proof -
  have a: "\<forall>pre task e post.
       fst (process_batch (pre @ (task, Inl e) # post)) = fst (process_batch (pre @ post))
       \<and> snd (process_batch (pre @ (task, Inl e) # post))
           = snd (process_batch pre) @ (task_id task, e) # snd (process_batch post)
       \<and> merge_batch final_result (fst (process_batch (pre @ (task, Inl e) # post)))
           = merge_batch final_result (fst (process_batch (pre @ post)))"
    by (simp add: process_batch_raising)
  have b: "fst (process_batch outcomes) = [result. (task, Inr result) \<leftarrow> outcomes]"
    by (rule process_batch_results)
  have c: "length (fst (process_batch outcomes)) + length (snd (process_batch outcomes)) = length outcomes"
    by (rule process_batch_lengths)
  have d: "\<forall>cl now task failure. future_result cl now (Some failure) task = Inl failure"
    by (simp add: future_result_def)
  have e: "\<forall>cl now task. future_result cl now None task = Inr (fst (extract_worker cl now task))"
    by (simp add: future_result_def)
  have f: "\<forall>cl now task e. snd (extract_worker cl now task) = Some e
        \<longrightarrow> brands (fst (extract_worker cl now task)) = []"
    using worker_caught_no_brand by blast
  show ?thesis by (intro conjI a b c d e f)
qed

theorem raising_task_is_dropped_witness:
  "process_batch
     [(demo_task\<lparr>task_id := ''deadbeef''\<rparr>,
         future_result (demo_client (Inr NotDict)) demo_now (Some TypeError) (demo_task\<lparr>task_id := ''deadbeef''\<rparr>)),
      (demo_task, future_result (demo_client (Inr NotDict)) demo_now None demo_task)]
     = ([\<lparr>reference_periods = [], brands = [], models = [uno_found], year_models = [uno_year],
            fipe_values = [uno_fipe_value]\<rparr>], [(''deadbeef'', TypeError)])
   \<and> snd (extract_worker (demo_client (Inr NotDict)) demo_now demo_task) = Some AttributeError
   \<and> brands (fst (extract_worker (demo_client (Inr NotDict)) demo_now demo_task)) = []"
proof -
  note t = raising_task_is_dropped [of empty_result "[]"]
  let ?bad = "demo_task\<lparr>task_id := ''deadbeef''\<rparr>"
  let ?good = "(demo_task, future_result (demo_client (Inr NotDict)) demo_now None demo_task)"
  have caught: "snd (extract_worker (demo_client (Inr NotDict)) demo_now demo_task) = Some AttributeError"
    by (simp add: demo_worker_malformed)
  have none: "brands (fst (extract_worker (demo_client (Inr NotDict)) demo_now demo_task)) = []"
    using t caught by blast
  have r: "fst (process_batch ([] @ (?bad, Inl TypeError) # [?good])) = fst (process_batch ([] @ [?good]))"
    and l: "snd (process_batch ([] @ (?bad, Inl TypeError) # [?good]))
        = snd (process_batch []) @ (task_id ?bad, TypeError) # snd (process_batch [?good])"
    using t by blast+
  have good: "process_batch [?good]
      = ([\<lparr>reference_periods = [], brands = [], models = [uno_found], year_models = [uno_year],
            fipe_values = [uno_fipe_value]\<rparr>], [])"
    by (simp add: future_result_def demo_worker_malformed)
  have "process_batch [(?bad, Inl TypeError), ?good]
      = ([\<lparr>reference_periods = [], brands = [], models = [uno_found], year_models = [uno_year],
            fipe_values = [uno_fipe_value]\<rparr>], [(''deadbeef'', TypeError)])"
    using r l by (simp add: good)
  then show ?thesis
    using caught none by (simp add: future_result_def)
qed



section \<open>The partial files the run writes\<close>

lemma wrapped_file_entries: "\<not> not_wrapped c \<Longrightarrow> file_entries c = empty_result"
  by (cases c rule: not_wrapped.cases) simp_all

lemma wrapped_files_consolidate_empty:
  assumes "\<forall>c\<in>set cs. \<not> not_wrapped c"
  shows "consolidate_files cs = empty_result"
proof -
  have "\<forall>c\<in>set cs. file_entries c = empty_result"
    using assms by (simp add: wrapped_file_entries)
  then have none: "concat (map (\<lambda>c. reference_periods (file_entries c)) cs) = []"
    "concat (map (\<lambda>c. brands (file_entries c)) cs) = []"
    "concat (map (\<lambda>c. models (file_entries c)) cs) = []"
    "concat (map (\<lambda>c. year_models (file_entries c)) cs) = []"
    "concat (map (\<lambda>c. fipe_values (file_entries c)) cs) = []"
    by (simp_all add: empty_result_def)
  have "reference_periods (consolidate_files cs) = []" and "brands (consolidate_files cs) = []"
    and "models (consolidate_files cs) = []" and "year_models (consolidate_files cs) = []"
    and "fipe_values (consolidate_files cs) = []"
    by (simp_all add: consolidate_files_lists consolidated_entries_def sort_periods_def
        sort_brands_def sort_models_def none)
  then show ?thesis
    by (simp add: empty_result_def)
qed

lemma partial_filename_json: "is_json_name (partial_filename k)"
  by (simp add: is_json_name_def partial_filename_def)

lemma run_batches_files:
  "\<forall>f\<in>set (snd (run_batches batch_size k final_result batches)).
     is_json_name (fst f) \<and> \<not> not_wrapped (snd f)"
proof (induction batches arbitrary: k final_result)
  case Nil
  show ?case by simp
next
  case (Cons batch rest)
  show ?case
    using Cons.IH [of "Suc k" "merge_batch final_result (fst (process_batch batch))"]
    by (simp add: Let_def case_prod_beta partial_filename_json)
qed

lemma run_batches_length:
  "length (snd (run_batches batch_size k final_result batches)) = length batches"
  by (induction batches arbitrary: k final_result) (simp_all add: Let_def case_prod_beta)

text \<open>
  What the run writes and what consolidation reads do not meet: every partial file the
  parallel run writes is in the wrapped layout, so consolidating them, in whatever order
  the directory lists them, gives a final artifact of five empty lists.
\<close>

lemma written_partials_consolidate_empty:
  assumes "set entries = set (snd (run_batches batch_size k final_result batches))"
    and "batches \<noteq> []"
  shows "consolidate_partials (Some entries) = Some empty_result"
proof -
  have all: "\<forall>f\<in>set entries. is_json_name (fst f) \<and> \<not> not_wrapped (snd f)"
    using run_batches_files [of batch_size k final_result batches] assms(1) by simp
  then have listed: "list_partial_files (Some entries) = entries"
    by (simp add: list_partial_files_def case_prod_beta)
  have "snd (run_batches batch_size k final_result batches) \<noteq> []"
    using run_batches_length [of batch_size k final_result batches] assms(2) by auto
  then have "entries \<noteq> []"
    using assms(1) by auto
  moreover have "consolidate_files (map snd entries) = empty_result"
    using all by (intro wrapped_files_consolidate_empty) simp
  ultimately show ?thesis
    by (simp add: consolidate_partials_def listed)
qed

end
